theory Spec2Isabelle
  imports Main "HOL-Library.Sublist" "HOL-Library.Multiset" "HOL-Library.AList"
begin

section \<open>JavaScript strings\<close>

text \<open>
  A JavaScript string is a sequence of code units. The model covers the strings whose
  code units are below 256 (ASCII and Latin-1), one \<^typ>\<open>char\<close> per code unit, so
  that \<open>length\<close>, \<open>take\<close> and \<open>drop\<close> are \<open>.length\<close> and \<open>.substring\<close>.
  Every keyword and pattern of \<open>script.js\<close> is ASCII.
\<close>

definition code :: "char \<Rightarrow> nat" where
  "code c = of_char c"

text \<open>\<open>String.prototype.toLowerCase\<close>: A-Z and the Latin-1 capitals
  U+00C0..U+00DE (without the multiplication sign U+00D7) move up by 32.\<close>

definition lowerChar :: "char \<Rightarrow> char" where
  "lowerChar c =
     (let n = code c in
      if (65 \<le> n \<and> n \<le> 90) \<or> (192 \<le> n \<and> n \<le> 222 \<and> n \<noteq> 215)
      then char_of (n + 32) else c)"

definition toLowerCase :: "string \<Rightarrow> string" where
  "toLowerCase s = map lowerChar s"

text \<open>White space and line terminators, as \<open>trim\<close> and the class \<open>\s\<close> read them:
  TAB, LF, VT, FF, CR, SP and NBSP are the ones below 256.\<close>

definition whiteSpace :: string where
  "whiteSpace = [CHR 0x09, CHR 0x0A, CHR 0x0B, CHR 0x0C, CHR 0x0D, CHR 0x20, CHR 0xA0]"

definition isSpace :: "char \<Rightarrow> bool" where
  "isSpace c = (c \<in> set whiteSpace)"

definition trim :: "string \<Rightarrow> string" where
  "trim s = rev (dropWhile isSpace (rev (dropWhile isSpace s)))"

text \<open>\<open>s.includes(k)\<close> and \<open>s.startsWith(k)\<close>.\<close>

fun startsWith :: "string \<Rightarrow> string \<Rightarrow> bool" where
  "startsWith s [] = True"
| "startsWith [] (k # ks) = False"
| "startsWith (c # cs) (k # ks) = (c = k \<and> startsWith cs ks)"

fun includesStr :: "string \<Rightarrow> string \<Rightarrow> bool" where
  "includesStr [] k = (k = [])"
| "includesStr (c # cs) k = (startsWith (c # cs) k \<or> includesStr cs k)"

text \<open>\<open>s.split(/\s+/)\<close>: the pieces between maximal runs of white space. A run at
  the start or at the end leaves an empty piece there, and the empty string splits
  into one empty piece.\<close>

function splitAcc :: "string \<Rightarrow> string \<Rightarrow> string list" where
  "splitAcc cur [] = [rev cur]"
| "splitAcc cur (c # cs) =
     (if isSpace c then rev cur # splitAcc [] (dropWhile isSpace cs)
      else splitAcc (c # cur) cs)"
  by pat_completeness auto
termination
  by (relation "measure (\<lambda>(cur, s). length s)")
     (auto simp: length_dropWhile_le less_Suc_eq_le)

definition splitSpaces :: "string \<Rightarrow> string list" where
  "splitSpaces s = splitAcc [] s"

section \<open>Regular expressions\<close>

text \<open>
  The patterns of \<open>shouldPerformWebSearch\<close> use literals, alternation, sequence,
  \<open>.*\<close>, \<open>\s+\<close>, the classes \<open>[0-9]\<close> and \<open>[0]\<close>, \<open>\b\<close> and \<open>^\<close>. A position in
  the subject is the code unit before it (if any) and the rest of the subject.
  \<open>rmatch\<close> lists the positions at which a match starting at the given position can
  end, in the order in which the backtracking matcher tries them (a quantifier is
  greedy, an alternation goes left to right). \<open>RegExp.prototype.test\<close> succeeds when
  some start position has a match.
\<close>

datatype cclass = Dot | WhiteSp | Range char char | OneOf string

datatype regex =
    Lit string
  | One cclass
  | Star cclass
  | Plus cclass
  | Alt "regex list"
  | Seq "regex list"
  | WordB
  | Bol

type_synonym pos = "char option \<times> string"

definition isLineTerminator :: "char \<Rightarrow> bool" where
  "isLineTerminator c = (c \<in> set [CHR 0x0A, CHR 0x0D])"

definition wordChars :: string where
  "wordChars =
     ''abcdefghijklmnopqrstuvwxyz'' @ ''ABCDEFGHIJKLMNOPQRSTUVWXYZ'' @ ''0123456789'' @ ''_''"

definition isWordChar :: "char \<Rightarrow> bool" where
  "isWordChar c = (c \<in> set wordChars)"

fun inClass :: "cclass \<Rightarrow> char \<Rightarrow> bool" where
  "inClass Dot c = (\<not> isLineTerminator c)"
| "inClass WhiteSp c = isSpace c"
| "inClass (Range a b) c = (code a \<le> code c \<and> code c \<le> code b)"
| "inClass (OneOf s) c = (c \<in> set s)"

text \<open>Canonicalisation under the flag \<open>i\<close>: a code unit is compared by its upper
  case. a-z and the Latin-1 small letters U+00E0..U+00FE (without the division sign
  U+00F7) move down by 32; U+00B5 and U+00FF have their upper case above 255, where
  no other code unit of the model goes, and U+00DF has none of one code unit, so the
  three stay. No code unit from 128 on is ever compared equal to an ASCII one. The
  classes used under \<open>i\<close> (\<open>.\<close> and \<open>\s\<close>) hold no letter, so that the flag leaves
  them as they are.\<close>

definition canonicalize :: "char \<Rightarrow> char" where
  "canonicalize c =
     (let n = code c in
      if (97 \<le> n \<and> n \<le> 122) \<or> (224 \<le> n \<and> n \<le> 254 \<and> n \<noteq> 247)
      then char_of (n - 32) else c)"

definition chEq :: "bool \<Rightarrow> char \<Rightarrow> char \<Rightarrow> bool" where
  "chEq ic a c = (if ic then canonicalize a = canonicalize c else a = c)"

fun matchLit :: "bool \<Rightarrow> string \<Rightarrow> pos \<Rightarrow> pos list" where
  "matchLit ic [] p = [p]"
| "matchLit ic (a # as) (prev, []) = []"
| "matchLit ic (a # as) (prev, c # cs) =
     (if chEq ic a c then matchLit ic as (Some c, cs) else [])"

fun matchStar :: "cclass \<Rightarrow> char option \<Rightarrow> string \<Rightarrow> pos list" where
  "matchStar k prev [] = [(prev, [])]"
| "matchStar k prev (c # cs) =
     (if inClass k c then matchStar k (Some c) cs else []) @ [(prev, c # cs)]"

definition atWordChar :: "char option \<Rightarrow> bool" where
  "atWordChar x = (case x of None \<Rightarrow> False | Some c \<Rightarrow> isWordChar c)"

definition nextChar :: "string \<Rightarrow> char option" where
  "nextChar s = (case s of [] \<Rightarrow> None | c # _ \<Rightarrow> Some c)"

fun rmatch :: "bool \<Rightarrow> regex \<Rightarrow> pos \<Rightarrow> pos list"
  and matchAlt :: "bool \<Rightarrow> regex list \<Rightarrow> pos \<Rightarrow> pos list"
  and matchSeq :: "bool \<Rightarrow> regex list \<Rightarrow> pos list \<Rightarrow> pos list" where
  "rmatch ic (Lit s) p = matchLit ic s p"
| "rmatch ic (One k) (prev, s) =
     (case s of [] \<Rightarrow> [] | c # cs \<Rightarrow> if inClass k c then [(Some c, cs)] else [])"
| "rmatch ic (Star k) (prev, s) = matchStar k prev s"
| "rmatch ic (Plus k) (prev, s) =
     (case s of [] \<Rightarrow> [] | c # cs \<Rightarrow> if inClass k c then matchStar k (Some c) cs else [])"
| "rmatch ic (Alt rs) p = matchAlt ic rs p"
| "rmatch ic (Seq rs) p = matchSeq ic rs [p]"
| "rmatch ic WordB (prev, s) =
     (if atWordChar prev \<noteq> atWordChar (nextChar s) then [(prev, s)] else [])"
| "rmatch ic Bol (prev, s) = (if prev = None then [(prev, s)] else [])"
| "matchAlt ic [] p = []"
| "matchAlt ic (r # rs) p = rmatch ic r p @ matchAlt ic rs p"
| "matchSeq ic [] ps = ps"
| "matchSeq ic (r # rs) ps = matchSeq ic rs (concat (map (rmatch ic r) ps))"

fun positions :: "char option \<Rightarrow> string \<Rightarrow> pos list" where
  "positions prev [] = [(prev, [])]"
| "positions prev (c # cs) = (prev, c # cs) # positions (Some c) cs"

definition test :: "bool \<Rightarrow> regex \<Rightarrow> string \<Rightarrow> bool" where
  "test ic r s = list_ex (\<lambda>p. rmatch ic r p \<noteq> []) (positions None s)"

section \<open>The search decision: \<open>shouldPerformWebSearch\<close>\<close>

definition timeKeywords :: "string list" where
  "timeKeywords =
     [''latest'', ''recent'', ''current'', ''today'', ''now'', ''this week'', ''this month'',
      ''this year'', ''yesterday'', ''breaking'', ''update'', ''news'', ''just happened'',
      ''currently'', ''ongoing'', ''live'', ''real-time'', ''as of'', ''right now'']"

definition yearPattern :: regex where
  "yearPattern =
     Seq [WordB,
          Alt [Seq [Lit ''202'', One (Range CHR ''0'' CHR ''9'')],
               Seq [Lit ''203'', One (OneOf ''0'')]],
          WordB]"

definition questionStarters :: regex where
  "questionStarters =
     Seq [Bol,
          Alt [Lit ''what'', Lit ''who'', Lit ''when'', Lit ''where'', Lit ''which'',
               Lit ''how'', Lit ''why'', Lit ''can you tell me'', Lit ''tell me about'',
               Lit ''do you know'']]"

definition namedEntities :: "string list" where
  "namedEntities =
     [''google'', ''apple'', ''microsoft'', ''amazon'', ''meta'', ''facebook'', ''tesla'',
      ''spacex'', ''openai'', ''anthropic'', ''nvidia'', ''intel'', ''amd'', ''samsung'',
      ''elon musk'', ''bill gates'', ''jeff bezos'', ''mark zuckerberg'', ''satya nadella'',
      ''sam altman'', ''sundar pichai'', ''tim cook'',
      ''chatgpt'', ''gemini'', ''claude'', ''iphone'', ''android'', ''windows'', ''mac'',
      ''bitcoin'', ''ethereum'', ''stock'', ''cryptocurrency'',
      ''election'', ''olympics'', ''world cup'', ''summit'', ''conference'', ''launch'']"

definition realTimeIndicators :: "string list" where
  "realTimeIndicators =
     [''price'', ''cost'', ''worth'', ''value'', ''stock price'', ''market'',
      ''weather'', ''temperature'', ''forecast'',
      ''score'', ''result'', ''winner'', ''champion'',
      ''status'', ''availability'', ''open'', ''closed'',
      ''trending'', ''popular'', ''viral'', ''top'']"

definition comparativePattern :: regex where
  "comparativePattern =
     Seq [Alt [Lit ''best'', Lit ''worst'', Lit ''top'', Lit ''fastest'', Lit ''slowest'',
               Lit ''biggest'', Lit ''smallest'', Lit ''most'', Lit ''least'', Lit ''better'',
               Lit ''worse''],
          Plus WhiteSp,
          Alt [Lit ''in'', Lit ''of'', Lit ''for'', Lit ''at'']]"

definition eventPattern :: regex where
  "eventPattern =
     Alt [Lit ''what happened'',
          Lit (''what'' @ [CHR 0x27] @ ''s happening''),
          Seq [Lit ''did'', Star Dot, Lit ''happen''],
          Seq [Lit ''has'', Star Dot, Lit ''happened''],
          Seq [Lit ''will'', Star Dot, Lit ''happen'']]"

definition statsPattern :: regex where
  "statsPattern =
     Alt [Lit ''how many'', Lit ''how much'', Lit ''number of'', Lit ''percentage'',
          Lit ''statistics'', Lit ''data'', Lit ''count'']"

definition locationPattern :: regex where
  "locationPattern =
     Seq [Alt [Lit ''in'', Lit ''at'', Lit ''near'', Lit ''around''],
          Plus WhiteSp,
          Alt [Lit ''new york'', Lit ''london'', Lit ''tokyo'', Lit ''paris'', Lit ''beijing'',
               Lit ''india'', Lit ''usa'', Lit ''china'', Lit ''europe'', Lit ''asia'']]"

definition noSearchKeywords :: "string list" where
  "noSearchKeywords =
     [''explain'', ''how does'', ''how do'', ''why does'', ''why do'',
      ''write'', ''create'', ''generate'', ''make me'', ''help me'',
      ''poem'', ''story'', ''essay'', ''code'', ''script'', ''function'',
      ''translate'', ''summarize'', ''rewrite'', ''paraphrase'',
      ''joke'', ''riddle'', ''fun fact'', ''imagine'', ''pretend'']"

text \<open>The locals of \<open>shouldPerformWebSearch\<close>, each as a function of \<open>lowerQuery\<close>.\<close>

definition lowerQueryOf :: "string \<Rightarrow> string" where
  "lowerQueryOf query = trim (toLowerCase query)"

definition wordsOf :: "string \<Rightarrow> string list" where
  "wordsOf lowerQuery = splitSpaces lowerQuery"

definition hasTimeIndicator :: "string \<Rightarrow> bool" where
  "hasTimeIndicator lowerQuery = list_ex (\<lambda>keyword. includesStr lowerQuery keyword) timeKeywords"

definition hasRecentYear :: "string \<Rightarrow> bool" where
  "hasRecentYear lowerQuery = test False yearPattern lowerQuery"

definition isQuestion :: "string \<Rightarrow> bool" where
  "isQuestion lowerQuery = test True questionStarters lowerQuery"

definition hasNamedEntity :: "string \<Rightarrow> bool" where
  "hasNamedEntity lowerQuery = list_ex (\<lambda>entity. includesStr lowerQuery entity) namedEntities"

definition needsRealTimeData :: "string \<Rightarrow> bool" where
  "needsRealTimeData lowerQuery =
     list_ex (\<lambda>indicator. includesStr lowerQuery indicator) realTimeIndicators"

definition hasComparative :: "string \<Rightarrow> bool" where
  "hasComparative lowerQuery = test True comparativePattern lowerQuery"

definition isEventQuery :: "string \<Rightarrow> bool" where
  "isEventQuery lowerQuery = test True eventPattern lowerQuery"

definition needsStats :: "string \<Rightarrow> bool" where
  "needsStats lowerQuery = test True statsPattern lowerQuery"

definition hasLocation :: "string \<Rightarrow> bool" where
  "hasLocation lowerQuery = test True locationPattern lowerQuery"

definition isCreativeRequest :: "string \<Rightarrow> bool" where
  "isCreativeRequest lowerQuery =
     (list_ex (\<lambda>keyword. includesStr lowerQuery keyword) noSearchKeywords
      \<and> \<not> hasTimeIndicator lowerQuery)"

definition isCommand :: "string \<Rightarrow> bool" where
  "isCommand lowerQuery = startsWith lowerQuery ''/''"

text \<open>The scoring block: \<open>searchScore\<close> starts at 0 and is updated by twelve
  \<open>if\<close> statements, in the order of the source.\<close>

definition searchScore :: "string \<Rightarrow> int" where
  "searchScore query =
     (let lowerQuery = lowerQueryOf query;
          words = wordsOf lowerQuery;
          s = 0;
          s = (if hasTimeIndicator lowerQuery then s + 40 else s);
          s = (if hasRecentYear lowerQuery then s + 30 else s);
          s = (if needsRealTimeData lowerQuery then s + 35 else s);
          s = (if isEventQuery lowerQuery then s + 35 else s);
          s = (if hasNamedEntity lowerQuery \<and> isQuestion lowerQuery then s + 25 else s);
          s = (if hasComparative lowerQuery then s + 20 else s);
          s = (if needsStats lowerQuery then s + 20 else s);
          s = (if hasLocation lowerQuery \<and> isQuestion lowerQuery then s + 15 else s);
          s = (if isQuestion lowerQuery \<and> length words > 4 then s + 10 else s);
          s = (if isCreativeRequest lowerQuery then s - 50 else s);
          s = (if isCommand lowerQuery then s - 100 else s);
          s = (if length words < 3 then s - 20 else s)
      in s)"

definition shouldPerformWebSearch :: "string \<Rightarrow> bool" where
  "shouldPerformWebSearch query = (searchScore query \<ge> 30)"

text \<open>The FeatureSet of the specification: the locals above, gathered in a record.\<close>

record featureSet =
  fHasTimeIndicator :: bool
  fHasRecentYear :: bool
  fIsQuestion :: bool
  fHasNamedEntity :: bool
  fNeedsRealTimeData :: bool
  fHasComparative :: bool
  fIsEventQuery :: bool
  fNeedsStats :: bool
  fHasLocation :: bool
  fIsCreativeRequest :: bool
  fIsCommand :: bool
  fWordCount :: nat

definition extractFeatures :: "string \<Rightarrow> featureSet" where
  "extractFeatures query =
     (let lowerQuery = lowerQueryOf query in
      \<lparr> fHasTimeIndicator = hasTimeIndicator lowerQuery,
        fHasRecentYear = hasRecentYear lowerQuery,
        fIsQuestion = isQuestion lowerQuery,
        fHasNamedEntity = hasNamedEntity lowerQuery,
        fNeedsRealTimeData = needsRealTimeData lowerQuery,
        fHasComparative = hasComparative lowerQuery,
        fIsEventQuery = isEventQuery lowerQuery,
        fNeedsStats = needsStats lowerQuery,
        fHasLocation = hasLocation lowerQuery,
        fIsCreativeRequest = isCreativeRequest lowerQuery,
        fIsCommand = isCommand lowerQuery,
        fWordCount = length (wordsOf lowerQuery) \<rparr>)"

section \<open>The search sources\<close>

text \<open>\<open>snippet.replace(/<[^>]*>/g, '')\<close>: every \<open><\<close> that has a \<open>>\<close> after it is
  removed together with the text up to the first such \<open>>\<close>; a \<open><\<close> with no
  \<open>>\<close> after it stays.\<close>

function stripTags :: "string \<Rightarrow> string" where
  "stripTags [] = []"
| "stripTags (c # cs) =
     (if c = CHR ''<'' then
        (case dropWhile (\<lambda>x. x \<noteq> CHR ''>'') cs of
           [] \<Rightarrow> c # stripTags cs
         | _ # rest \<Rightarrow> stripTags rest)
      else c # stripTags cs)"
  by pat_completeness auto
termination
proof (relation "measure length")
  fix c :: char and cs x21 x22
  assume "dropWhile (\<lambda>x. x \<noteq> CHR ''>'') cs = x21 # x22"
  then have "length (x21 # x22) \<le> length cs"
    by (metis length_dropWhile_le)
  then show "(x22, c # cs) \<in> measure length" by simp
qed auto

text \<open>\<open>encodeURIComponent\<close> on code units below 256: the unreserved characters stay,
  every other one becomes the percent-escapes of its UTF-8 bytes (one byte below 128,
  two bytes from 128 on).\<close>

definition uriUnreserved :: string where
  "uriUnreserved =
     ''ABCDEFGHIJKLMNOPQRSTUVWXYZ'' @ ''abcdefghijklmnopqrstuvwxyz'' @ ''0123456789'' @
     ''-_.!~*'' @ [CHR 0x27] @ ''()''"

definition hexDigit :: "nat \<Rightarrow> char" where
  "hexDigit n = ''0123456789ABCDEF'' ! (n mod 16)"

definition percent :: "nat \<Rightarrow> string" where
  "percent n = [CHR ''%'', hexDigit (n div 16), hexDigit n]"

definition encodeChar :: "char \<Rightarrow> string" where
  "encodeChar c =
     (if c \<in> set uriUnreserved then [c]
      else let n = code c in
        if n < 128 then percent n
        else percent (192 + n div 64) @ percent (128 + n mod 64))"

definition encodeURIComponent :: "string \<Rightarrow> string" where
  "encodeURIComponent s = concat (map encodeChar s)"

text \<open>The value a search function resolves to: \<open>{snippet, url}\<close>, or \<open>null\<close>
  (\<open>None\<close>). A field that can be \<open>undefined\<close> is an option.\<close>

record searchResult =
  snippet :: string
  url :: "string option"

text \<open>What the Wikipedia request gives. \<open>WikiFailure\<close> stands for every case in
  which a statement of the \<open>try\<close> block throws: \<open>fetch\<close> rejects, the body is not
  JSON, \<open>data.query.search\<close> is missing, the first hit has no snippet string.
  \<open>WikiSearch\<close> is the list \<open>data.query.search\<close>.\<close>

record hit =
  hitTitle :: string
  hitSnippet :: string

datatype wikiResponse = WikiFailure | WikiSearch "hit list"

definition wikiUrl :: "string \<Rightarrow> string" where
  "wikiUrl query =
     ''https://en.wikipedia.org/w/api.php?action=query&list=search&srsearch='' @
     encodeURIComponent query @ ''&format=json&origin=*''"

definition searchWikipedia :: "(string \<Rightarrow> wikiResponse) \<Rightarrow> string \<Rightarrow> searchResult option" where
  "searchWikipedia fetch query =
     (case fetch (wikiUrl query) of
        WikiFailure \<Rightarrow> None
      | WikiSearch search \<Rightarrow>
          (case search of
             [] \<Rightarrow> None
           | result # _ \<Rightarrow>
               (let snip = stripTags (hitSnippet result) in
                Some \<lparr> snippet = take 300 snip @ ''...'',
                       url = Some (''https://en.wikipedia.org/wiki/'' @
                                   encodeURIComponent (hitTitle result)) \<rparr>)))"

text \<open>What the DuckDuckGo request gives. \<open>DdgFailure\<close>: \<open>fetch\<close> rejects, the body
  is not JSON, or it is \<open>null\<close>. A string field is truthy when it is there and not
  empty.\<close>

record topic =
  Text :: "string option"
  FirstURL :: "string option"

record ddgData =
  AbstractText :: "string option"
  AbstractURL :: "string option"
  RelatedTopics :: "topic list option"

datatype ddgResponse = DdgFailure | DdgBody ddgData

definition corsProxy :: string where
  "corsProxy = ''https://api.allorigins.win/raw?url=''"

definition ddgUrl :: "string \<Rightarrow> string" where
  "ddgUrl query =
     corsProxy @ encodeURIComponent
       (''https://api.duckduckgo.com/?q='' @ encodeURIComponent query @
        ''&format=json&no_redirect=1'')"

definition truthy :: "string option \<Rightarrow> bool" where
  "truthy x = (case x of None \<Rightarrow> False | Some v \<Rightarrow> v \<noteq> [])"

text \<open>The second branch of \<open>searchDuckDuckGo\<close>: the first related topic, if it has a
  text.\<close>

definition firstRelatedTopic :: "ddgData \<Rightarrow> searchResult option" where
  "firstRelatedTopic data =
     (case RelatedTopics data of
        Some (topic # _) \<Rightarrow>
          (case Text topic of
             Some t \<Rightarrow>
               if t \<noteq> [] then Some \<lparr> snippet = take 300 t @ ''...'', url = FirstURL topic \<rparr>
               else None
           | None \<Rightarrow> None)
      | _ \<Rightarrow> None)"

definition searchDuckDuckGo :: "(string \<Rightarrow> ddgResponse) \<Rightarrow> string \<Rightarrow> searchResult option" where
  "searchDuckDuckGo fetch query =
     (case fetch (ddgUrl query) of
        DdgFailure \<Rightarrow> None
      | DdgBody data \<Rightarrow>
          (case AbstractText data of
             Some abstract \<Rightarrow>
               if abstract \<noteq> [] then
                 Some \<lparr> snippet = take 300 abstract @ ''...'', url = AbstractURL data \<rparr>
               else firstRelatedTopic data
           | None \<Rightarrow> firstRelatedTopic data))"

section \<open>The aggregator\<close>

text \<open>An element of the array \<open>Promise.allSettled\<close> resolves to.\<close>

datatype 'a settled = Fulfilled 'a | Rejected

text \<open>A value inside a template literal; \<open>undefined\<close> prints as its name.\<close>

definition shown :: "string option \<Rightarrow> string" where
  "shown x = (case x of None \<Rightarrow> ''undefined'' | Some v \<Rightarrow> v)"

text \<open>Lines 476 to 489 of \<open>performWebSearch\<close>: \<open>searchContext\<close> and \<open>sources\<close>
  start empty and are extended by the Wikipedia block, then by the DuckDuckGo
  block.\<close>

definition aggregate ::
  "searchResult option settled \<Rightarrow> searchResult option settled \<Rightarrow> string \<times> string list" where
  "aggregate wikiResult ddgResult =
     (let searchContext = [];
          sources = [];
          (searchContext, sources) =
            (case wikiResult of
               Fulfilled (Some v) \<Rightarrow>
                 (searchContext @ ''\<newline>\<newline>**From Wikipedia:**\<newline>'' @ snippet v @ ''\<newline>'',
                  sources @ [''[Wikipedia]('' @ shown (url v) @ '')''])
             | _ \<Rightarrow> (searchContext, sources));
          (searchContext, sources) =
            (case ddgResult of
               Fulfilled (Some v) \<Rightarrow>
                 (searchContext @ ''\<newline>\<newline>**From DuckDuckGo:**\<newline>'' @ snippet v @ ''\<newline>'',
                  if truthy (url v) then sources @ [''[Source]('' @ shown (url v) @ '')'']
                  else sources)
             | _ \<Rightarrow> (searchContext, sources))
      in (searchContext, sources))"

definition enrichedPrompt :: "string \<Rightarrow> string \<Rightarrow> string" where
  "enrichedPrompt query searchContext =
     ''You are Aero AI. I have searched the web for: \"'' @ query @ ''\"\<newline>'' @
     ''\<newline>'' @
     ''Here is the real-time information I found:\<newline>'' @
     searchContext @ ''\<newline>'' @
     ''\<newline>'' @
     ''Your task: Use this web information as context, but generate your OWN comprehensive, well-structured answer. \<newline>'' @
     ''- Synthesize the information naturally\<newline>'' @
     ''- Add your own insights and explanations\<newline>'' @
     ''- Make it conversational and easy to understand\<newline>'' @
     ''- Cite sources when referencing specific facts\<newline>'' @
     ''- If the web info is incomplete, acknowledge it and provide what you know\<newline>'' @
     ''\<newline>'' @
     ''User'' @ [CHR 0x27] @ ''s question: '' @ query"

section \<open>Conversations and the persisted store\<close>

text \<open>
  A turn is \<open>{role, content}\<close>; a chat is \<open>{id, title, date, messages}\<close>. The date
  is the instant its ISO string denotes, in milliseconds. \<open>allChats\<close> is an object
  used as a dictionary: an association list in insertion order, which is the order
  of \<open>Object.keys\<close> for the identifiers \<open>generateChatId\<close> makes.

  \<open>localStorage\<close> holds the value of the key \<open>aero_all_chats\<close>, absent at first.
  The stored text is always the \<open>JSON.stringify\<close> of \<open>allChats\<close>, and \<open>JSON.parse\<close>
  gives back an equal value, so the model stores the value itself. A write to the
  store succeeds: its quota is not part of the model.
\<close>

record turn =
  role :: string
  content :: string

record chat =
  chatId :: string
  title :: string
  date :: int
  messages :: "turn list"

text \<open>The children of \<open>chatbox\<close>: the welcome screen (shown or not), a message
  (text, \<open>isUser\<close>), a generated image, a card of search results.\<close>

datatype item =
    Welcome bool
  | Message string bool
  | Image "string option"
  | SearchResults string string "string list"

text \<open>What leaves the page, in order: a write to \<open>localStorage\<close> and the requests
  (the two search requests by their URL, the POST by \<open>isImage\<close> and its prompt).\<close>

datatype event =
    StorageWrite "(string \<times> chat) list"
  | FetchWiki string
  | FetchDdg string
  | ApiRequest bool string

record state =
  isGenerating :: bool
  conversationHistory :: "turn list"
  currentChatId :: "string option"
  allChats :: "(string \<times> chat) list"
  localStorage :: "(string \<times> chat) list option"
  chatbox :: "item list"
  chatInput :: string
  typingText :: string
  typingHidden :: bool
  sendDisabled :: bool
  events :: "event list"

definition displayMessage :: "string \<Rightarrow> bool \<Rightarrow> state \<Rightarrow> state" where
  "displayMessage txt isUser s = s\<lparr> chatbox := chatbox s @ [Message txt isUser] \<rparr>"

definition displayImage :: "string option \<Rightarrow> state \<Rightarrow> state" where
  "displayImage u s = s\<lparr> chatbox := chatbox s @ [Image u] \<rparr>"

definition displaySearchResults :: "string \<Rightarrow> string \<Rightarrow> string list \<Rightarrow> state \<Rightarrow> state" where
  "displaySearchResults query context sources s =
     s\<lparr> chatbox := chatbox s @ [SearchResults query context sources] \<rparr>"

definition showWelcomeScreen :: "state \<Rightarrow> state" where
  "showWelcomeScreen s = s\<lparr> chatbox := [Welcome True] \<rparr>"

fun hideFirstWelcome :: "item list \<Rightarrow> item list" where
  "hideFirstWelcome [] = []"
| "hideFirstWelcome (Welcome v # xs) = Welcome False # xs"
| "hideFirstWelcome (x # xs) = x # hideFirstWelcome xs"

definition removeWelcomeScreen :: "state \<Rightarrow> state" where
  "removeWelcomeScreen s = s\<lparr> chatbox := hideFirstWelcome (chatbox s) \<rparr>"

definition updateStatus :: "string \<Rightarrow> bool \<Rightarrow> state \<Rightarrow> state" where
  "updateStatus txt hide s =
     (if hide then s\<lparr> typingHidden := True, sendDisabled := False \<rparr>
      else s\<lparr> typingText := ''Aero is '' @ txt, typingHidden := False, sendDisabled := True \<rparr>)"

definition saveAllChats :: "state \<Rightarrow> state" where
  "saveAllChats s =
     s\<lparr> localStorage := Some (allChats s), events := events s @ [StorageWrite (allChats s)] \<rparr>"

text \<open>\<open>saveCurrentChat\<close>. The sidebar that \<open>updateHistorySidebar\<close> redraws is not part
  of the state. The assignment makes \<open>messages\<close> and \<open>conversationHistory\<close> one
  array; the only later change of that array is the \<open>push\<close> of \<open>addToHistory\<close>,
  which is followed by this assignment again, so that a copy behaves the same.\<close>

definition autoTitle :: "turn list \<Rightarrow> string \<Rightarrow> string" where
  "autoTitle history old =
     (if old = ''New chat'' \<and> length history > 0 then
        (case find (\<lambda>m. role m = ''user'') history of
           Some firstUserMsg \<Rightarrow>
             take 40 (content firstUserMsg) @
             (if length (content firstUserMsg) > 40 then ''...'' else [])
         | None \<Rightarrow> old)
      else old)"

definition saveCurrentChat :: "state \<Rightarrow> state" where
  "saveCurrentChat s =
     (case currentChatId s of
        None \<Rightarrow> s
      | Some cid \<Rightarrow>
          if cid = [] then s
          else (case map_of (allChats s) cid of
                  None \<Rightarrow> s
                | Some c \<Rightarrow>
                    saveAllChats
                      (s\<lparr> allChats :=
                            AList.update cid
                              (c\<lparr> messages := conversationHistory s,
                                  title := autoTitle (conversationHistory s) (title c) \<rparr>)
                              (allChats s) \<rparr>)))"

definition addToHistory :: "string \<Rightarrow> string \<Rightarrow> state \<Rightarrow> state" where
  "addToHistory r c s =
     saveCurrentChat
       (s\<lparr> conversationHistory := conversationHistory s @ [\<lparr> role = r, content = c \<rparr>] \<rparr>)"

text \<open>The second half of \<open>loadChat\<close>, for a chat that was found.\<close>

definition restoreChat :: "chat \<Rightarrow> state \<Rightarrow> state" where
  "restoreChat c s =
     (let s1 = s\<lparr> chatbox := [], conversationHistory := messages c \<rparr> in
      if length (conversationHistory s1) = 0 then showWelcomeScreen s1
      else fold (\<lambda>msg. displayMessage (content msg) (role msg = ''user''))
             (conversationHistory s1) s1)"

text \<open>\<open>createNewChat\<close>, given the identifier that \<open>generateChatId\<close> returns and the
  current time. Its call \<open>loadChat(chatId)\<close> finds the chat stored two lines before,
  so the call is the assignment of \<open>currentChatId\<close> and the second half of
  \<open>loadChat\<close>.\<close>

definition createNewChat :: "string \<times> int \<Rightarrow> state \<Rightarrow> state" where
  "createNewChat fresh s =
     (let newChat = \<lparr> chatId = fst fresh, title = ''New chat'', date = snd fresh, messages = [] \<rparr>;
          s1 = s\<lparr> allChats := AList.update (fst fresh) newChat (allChats s) \<rparr>;
          s2 = saveAllChats s1;
          s3 = s2\<lparr> currentChatId := Some (fst fresh) \<rparr>
      in restoreChat newChat s3)"

definition loadChat :: "string \<times> int \<Rightarrow> string \<Rightarrow> state \<Rightarrow> state" where
  "loadChat fresh cid s =
     (let s1 = s\<lparr> currentChatId := Some cid \<rparr> in
      case map_of (allChats s1) cid of
        None \<Rightarrow> createNewChat fresh s1
      | Some c \<Rightarrow> restoreChat c s1)"

text \<open>\<open>loadAllChats\<close>. The sort is stable and puts the later date first, so that its
  first element is the first key among those of the latest date.\<close>

definition loadAllChats :: "string \<times> int \<Rightarrow> state \<Rightarrow> state" where
  "loadAllChats fresh s =
     (case localStorage s of
        None \<Rightarrow> createNewChat fresh s
      | Some saved \<Rightarrow>
          (let s1 = s\<lparr> allChats := saved \<rparr> in
           case sort_key (\<lambda>kc. - date (snd kc)) (allChats s1) of
             [] \<Rightarrow> createNewChat fresh s1
           | mostRecent # _ \<Rightarrow> loadChat fresh (fst mostRecent) s1))"

text \<open>The globals as the script sets them when the page is loaded again; the store
  stays, and so does the record of what left the page.\<close>

definition reloadPage :: "state \<Rightarrow> state" where
  "reloadPage s =
     s\<lparr> isGenerating := False, conversationHistory := [], currentChatId := None,
        allChats := [], chatbox := [], chatInput := [] \<rparr>"

section \<open>Calling the API\<close>

datatype error = FetchFailed

text \<open>The JSON a POST resolves to: \<open>null\<close>, or a value with the fields \<open>status\<close>,
  \<open>text\<close> and \<open>imageUrl\<close>, each of them a string or not there.\<close>

datatype apiJson = JNull | JObj (jstatus: "string option") (jtext: "string option") (jimageUrl: "string option")

text \<open>The network, as the page sees it: what each search URL answers, and what the
  \<open>n\<close>-th POST answers (\<open>Inl\<close> when \<open>fetch\<close> or \<open>response.json()\<close> rejects).\<close>

record env =
  fetchWiki :: "string \<Rightarrow> wikiResponse"
  fetchDdg :: "string \<Rightarrow> ddgResponse"
  fetchApi :: "nat \<Rightarrow> error + apiJson"

fun joinWith :: "string \<Rightarrow> string list \<Rightarrow> string" where
  "joinWith sep [] = []"
| "joinWith sep [x] = x"
| "joinWith sep (x # y # ys) = x @ sep @ joinWith sep (y # ys)"

definition conversationContext :: "turn list \<Rightarrow> string" where
  "conversationContext history =
     joinWith ''\<newline>''
       (map (\<lambda>msg. (if role msg = ''user'' then ''User'' else ''Aero'') @ '': '' @ content msg)
          (drop (length history - 10) history))"

definition systemPrompt :: string where
  "systemPrompt =
      ''You are Aero, an advanced AI assistant. Provide professional, well-structured responses.\<newline>'' @
      ''\<newline>'' @
      ''CRITICAL FORMATTING RULES (Use Markdown):\<newline>'' @
      ''\<newline>'' @
      ''1. **Code Blocks**: ALWAYS use proper markdown code blocks with language specification:\<newline>'' @
      ''   ```python\<newline>'' @
      ''   def example():\<newline>'' @
      ''       return \"Hello\"\<newline>'' @
      ''   ```\<newline>'' @
      ''\<newline>'' @
      ''2. **Inline Code**: Use `backticks` for inline code, commands, or technical terms.\<newline>'' @
      ''\<newline>'' @
      ''3. **Structure**:\<newline>'' @
      ''   - Use headers (##, ###) for main sections\<newline>'' @
      ''   - Use numbered lists (1., 2., 3.) for steps or ordered information\<newline>'' @
      ''   - Use bullet points (-) for features or unordered lists\<newline>'' @
      ''   - Use **bold** for key terms and emphasis\<newline>'' @
      ''   - Use tables for comparisons\<newline>'' @
      ''\<newline>'' @
      ''4. **Explanations**:\<newline>'' @
      ''   - Start complex answers with a brief intro\<newline>'' @
      ''   - Break down into clear sections with headers\<newline>'' @
      ''   - Provide code examples when relevant\<newline>'' @
      ''   - End with a summary or next steps if appropriate\<newline>'' @
      ''\<newline>'' @
      ''5. **Code Quality**:\<newline>'' @
      ''   - Always include language identifier in code blocks\<newline>'' @
      ''   - Add comments in code for clarity\<newline>'' @
      ''   - Show complete, working examples\<newline>'' @
      ''   - Explain what the code does\<newline>'' @
      ''\<newline>'' @
      ''Remember: Format like ChatGPT - professional, clear, and well-structured with proper markdown!''"

definition finalPrompt :: "turn list \<Rightarrow> string \<Rightarrow> bool \<Rightarrow> string" where
  "finalPrompt history prompt isImage =
     (if \<not> isImage then
        (if conversationContext history \<noteq> [] then
           systemPrompt @ ''\<newline>\<newline>Previous conversation:\<newline>'' @ conversationContext history @
           ''\<newline>\<newline>User: '' @ prompt
         else systemPrompt @ ''\<newline>\<newline>User: '' @ prompt)
      else prompt)"

definition isApiRequest :: "event \<Rightarrow> bool" where
  "isApiRequest e = (case e of ApiRequest _ _ \<Rightarrow> True | _ \<Rightarrow> False)"

definition callApi :: "env \<Rightarrow> string \<Rightarrow> bool \<Rightarrow> state \<Rightarrow> (error + apiJson) \<times> state" where
  "callApi net prompt isImage s =
     (let n = length (filter isApiRequest (events s));
          s1 = s\<lparr> events := events s @
                  [ApiRequest isImage (finalPrompt (conversationHistory s) prompt isImage)] \<rparr>
      in (fetchApi net n, s1))"

text \<open>\<open>handleResponse\<close> is an async function that no caller awaits. It runs up to its
  \<open>await\<close> inside the caller; the rest runs after the caller has finished. The model
  returns the state at that point and, if the function stopped at its \<open>await\<close>, the
  answer it waits for. An exception inside it (a property of \<open>null\<close> or of
  \<open>undefined\<close> is read, the awaited call rejects) rejects its own promise, which
  nobody observes: the function ends there.\<close>

definition handleResponse ::
  "env \<Rightarrow> apiJson \<Rightarrow> bool \<Rightarrow> state \<Rightarrow> state \<times> (error + apiJson) option" where
  "handleResponse net data isImageGen s =
     (case data of
        JNull \<Rightarrow> (s, None)
      | JObj st txt img \<Rightarrow>
          if st = Some ''success'' then
            if isImageGen then
              (addToHistory ''assistant'' ''[Generated Image]'' (displayImage img s), None)
            else
              (case txt of
                 None \<Rightarrow> (s, None)
               | Some t \<Rightarrow>
                   if startsWith (toLowerCase (trim t)) ''/image'' then
                     (let description = trim (drop 6 t);
                          s1 = updateStatus ''Generating image...'' False s;
                          (imgData, s2) = callApi net description True s1
                      in (s2, Some imgData))
                   else
                     (addToHistory ''assistant'' t (displayMessage t False s), None))
          else (displayMessage ''Error from API.'' False s, None))"

definition resumeResponse :: "error + apiJson \<Rightarrow> state \<Rightarrow> state" where
  "resumeResponse imgData s =
     (case imgData of
        Inl e \<Rightarrow> s
      | Inr JNull \<Rightarrow> s
      | Inr (JObj st txt img) \<Rightarrow>
          if st = Some ''success'' then
            addToHistory ''assistant'' ''[Generated Image]'' (displayImage img s)
          else displayMessage ''Failed to generate image.'' False s)"

section \<open>\<open>performWebSearch\<close> and \<open>handleChatSubmit\<close>\<close>

text \<open>Both search functions catch everything, so both promises are fulfilled. The
  result is the exception that leaves the function, if any, the state, and the
  answer an unfinished \<open>handleResponse\<close> waits for.\<close>

definition performWebSearch ::
  "env \<Rightarrow> string \<Rightarrow> state \<Rightarrow> (error + unit) \<times> state \<times> (error + apiJson) option" where
  "performWebSearch net query s =
     (let s1 = updateStatus ''Searching the web...'' False s;
          s2 = s1\<lparr> events := events s1 @ [FetchWiki (wikiUrl query), FetchDdg (ddgUrl query)] \<rparr>;
          wikiResult = Fulfilled (searchWikipedia (fetchWiki net) query);
          ddgResult = Fulfilled (searchDuckDuckGo (fetchDdg net) query);
          (searchContext, sources) = aggregate wikiResult ddgResult;
          s3 = (if searchContext \<noteq> [] then displaySearchResults query searchContext sources s2
                else s2);
          s4 = updateStatus ''Analyzing information...'' False s3;
          (r, s5) = callApi net (enrichedPrompt query searchContext) False s4
      in case r of
           Inr response \<Rightarrow>
             (let (s6, p) = handleResponse net response False s5 in (Inr (), s6, p))
         | Inl e \<Rightarrow>
             (let s6 = displayMessage
                         ''Web search encountered an error. Answering from knowledge base...''
                         False s5;
                  (r2, s7) = callApi net query False s6
              in case r2 of
                   Inr response \<Rightarrow>
                     (let (s8, p) = handleResponse net response False s7 in (Inr (), s8, p))
                 | Inl e2 \<Rightarrow> (Inl e2, s7, None)))"

text \<open>The \<open>try\<close> block of \<open>handleChatSubmit\<close>.\<close>

definition submitBody ::
  "env \<Rightarrow> string \<Rightarrow> state \<Rightarrow> (error + unit) \<times> state \<times> (error + apiJson) option" where
  "submitBody net message s =
     (let isImageGen = startsWith (toLowerCase message) ''/image'' in
      if \<not> isImageGen \<and> shouldPerformWebSearch message then performWebSearch net message s
      else if isImageGen then
        (let s1 = updateStatus ''Generating image...'' False s;
             (r, s2) = callApi net (trim (drop 6 message)) True s1
         in case r of
              Inr response \<Rightarrow>
                (let (s3, p) = handleResponse net response True s2 in (Inr (), s3, p))
            | Inl e \<Rightarrow> (Inl e, s2, None))
      else
        (let s1 = updateStatus ''Thinking...'' False s;
             (r, s2) = callApi net message False s1
         in case r of
              Inr response \<Rightarrow>
                (let (s3, p) = handleResponse net response False s2 in (Inr (), s3, p))
            | Inl e \<Rightarrow> (Inl e, s2, None)))"

text \<open>\<open>handleChatSubmit\<close>: the guard, the statements before \<open>try\<close>, then \<open>try\<close>,
  \<open>catch\<close> and \<open>finally\<close>.\<close>

definition submitPrelude :: "string \<Rightarrow> state \<Rightarrow> state" where
  "submitPrelude message s =
     (let s1 = displayMessage message True s;
          s2 = addToHistory ''user'' message s1;
          s3 = s2\<lparr> chatInput := [] \<rparr>;
          s4 = s3\<lparr> isGenerating := True \<rparr>
      in removeWelcomeScreen s4)"

definition handleChatSubmit :: "env \<Rightarrow> state \<Rightarrow> state \<times> (error + apiJson) option" where
  "handleChatSubmit net s =
     (let message = trim (chatInput s) in
      if message = [] \<or> isGenerating s then (s, None)
      else
        (let s1 = submitPrelude message s;
             (r, s2, p) = submitBody net message s1;
             s3 = (case r of
                     Inr _ \<Rightarrow> s2
                   | Inl e \<Rightarrow>
                       displayMessage ''Sorry, something went wrong. Please try again.'' False s2);
             s4 = s3\<lparr> isGenerating := False \<rparr>
         in (updateStatus [] True s4, p)))"

text \<open>The state once an unfinished \<open>handleResponse\<close> has run to its end.\<close>

definition settle :: "state \<times> (error + apiJson) option \<Rightarrow> state" where
  "settle sp = (case snd sp of None \<Rightarrow> fst sp | Some imgData \<Rightarrow> resumeResponse imgData (fst sp))"

section \<open>The specification's table of weights\<close>

text \<open>The contributions that section 4.2 of the specification lists, one entry for
  each row of its table, in the order of the table.\<close>

definition contributions :: "featureSet \<Rightarrow> int list" where
  "contributions f =
     [if fHasTimeIndicator f then 40 else 0,
      if fHasRecentYear f then 30 else 0,
      if fNeedsRealTimeData f then 35 else 0,
      if fIsEventQuery f then 35 else 0,
      if fHasNamedEntity f \<and> fIsQuestion f then 25 else 0,
      if fHasComparative f then 20 else 0,
      if fNeedsStats f then 20 else 0,
      if fHasLocation f \<and> fIsQuestion f then 15 else 0,
      if fIsQuestion f \<and> fWordCount f > 4 then 10 else 0,
      if fIsCreativeRequest f then - 50 else 0,
      if fIsCommand f then - 100 else 0,
      if fWordCount f < 3 then - 20 else 0]"

section \<open>Notions used in the statements\<close>

text \<open>The condition \<open>result.status === 'fulfilled' && result.value\<close> of the
  aggregator: the value of a source whose result is present.\<close>

definition present :: "searchResult option settled \<Rightarrow> searchResult option" where
  "present r = (case r of Fulfilled (Some v) \<Rightarrow> Some v | _ \<Rightarrow> None)"

text \<open>A text that holds a tag: a \<open><\<close> with a \<open>>\<close> somewhere after it.\<close>

fun hasTag :: "string \<Rightarrow> bool" where
  "hasTag [] = False"
| "hasTag (c # cs) = ((c = CHR ''<'' \<and> CHR ''>'' \<in> set cs) \<or> hasTag cs)"

text \<open>The prompts of the chat requests (the POSTs with \<open>isImage\<close> false) among the
  events, in order.\<close>

fun chatPrompts :: "event list \<Rightarrow> string list" where
  "chatPrompts [] = []"
| "chatPrompts (ApiRequest isImage p # es) =
     (if isImage then chatPrompts es else p # chatPrompts es)"
| "chatPrompts (e # es) = chatPrompts es"

text \<open>Appending turns one after the other, each with \<open>addToHistory\<close>.\<close>

definition appendTurns :: "turn list \<Rightarrow> state \<Rightarrow> state" where
  "appendTurns ts s = fold (\<lambda>t. addToHistory (role t) (content t)) ts s"

text \<open>The current chat is \<open>cid\<close>, it is one of \<open>allChats\<close>, and the store holds it
  with the conversation history as its messages.\<close>

definition currentChat :: "string \<Rightarrow> state \<Rightarrow> bool" where
  "currentChat cid s =
     (currentChatId s = Some cid \<and> cid \<noteq> [] \<and> map_of (allChats s) cid \<noteq> None)"

definition storedMessages :: "string \<Rightarrow> state \<Rightarrow> turn list option" where
  "storedMessages cid s =
     (case localStorage s of
        None \<Rightarrow> None
      | Some st \<Rightarrow> (case map_of st cid of None \<Rightarrow> None | Some c \<Rightarrow> Some (messages c)))"

definition persisted :: "string \<Rightarrow> state \<Rightarrow> bool" where
  "persisted cid s =
     (currentChat cid s \<and> storedMessages cid s = Some (conversationHistory s))"

text \<open>The \<open>isImage\<close> flags of the POSTs among the events, in order, and the number
  of POSTs sent so far: the \<open>n\<close>-th POST is answered by \<open>fetchApi net n\<close>, so
  that the last POST sent is the one numbered \<open>apiCount s - 1\<close>.\<close>

fun apiFlags :: "event list \<Rightarrow> bool list" where
  "apiFlags [] = []"
| "apiFlags (ApiRequest isImage p # es) = isImage # apiFlags es"
| "apiFlags (e # es) = apiFlags es"

definition apiCount :: "state \<Rightarrow> nat" where
  "apiCount s = length (filter isApiRequest (events s))"

section \<open>Notions used in the proofs\<close>

text \<open>A code unit that \<open>toLowerCase\<close> leaves as it is, and a pattern whose literals
  consist of such code units. On them the flag \<open>i\<close> makes no difference.\<close>

definition lowered :: "char \<Rightarrow> bool" where
  "lowered c = (lowerChar c = c)"

definition isLowerLetter :: "nat \<Rightarrow> bool" where
  "isLowerLetter n = ((97 \<le> n \<and> n \<le> 122) \<or> (224 \<le> n \<and> n \<le> 254 \<and> n \<noteq> 247))"

definition isUpperLetter :: "nat \<Rightarrow> bool" where
  "isUpperLetter n = ((65 \<le> n \<and> n \<le> 90) \<or> (192 \<le> n \<and> n \<le> 222 \<and> n \<noteq> 215))"

primrec loweredRegex :: "regex \<Rightarrow> bool" where
  "loweredRegex (Lit s) = list_all lowered s"
| "loweredRegex (One k) = True"
| "loweredRegex (Star k) = True"
| "loweredRegex (Plus k) = True"
| "loweredRegex (Alt rs) = list_all loweredRegex rs"
| "loweredRegex (Seq rs) = list_all loweredRegex rs"
| "loweredRegex WordB = True"
| "loweredRegex Bol = True"

text \<open>What the answer to the last POST adds to the history, for an image request
  or not: \<open>handleResponse\<close> calls \<open>addToHistory\<close> for the assistant under
  \<open>data.status === 'success'\<close> only.\<close>

definition contribution :: "bool \<Rightarrow> error + apiJson \<Rightarrow> turn list" where
  "contribution isImage r =
     (case r of
        Inl e \<Rightarrow> []
      | Inr JNull \<Rightarrow> []
      | Inr (JObj st tx img) \<Rightarrow>
          if st = Some ''success'' then
            if isImage then [\<lparr> role = ''assistant'', content = ''[Generated Image]'' \<rparr>]
            else (case tx of
                    None \<Rightarrow> []
                  | Some t \<Rightarrow> [\<lparr> role = ''assistant'', content = t \<rparr>])
          else [])"

text \<open>An answer with a status other than \<open>success\<close>.\<close>

fun refused :: "error + apiJson \<Rightarrow> bool" where
  "refused (Inr (JObj st tx img)) = (st \<noteq> Some ''success'')"
| "refused r = False"

text \<open>What a submission that has sent a POST after the first \<open>n0\<close> has done to the
  history \<open>h\<close>. While \<open>handleResponse\<close> waits for an answer \<open>p\<close>, nothing: the last
  POST is an image request and \<open>p\<close> is its answer. Otherwise it has added what the
  answer to the last POST gives; and if that answer has another status than
  \<open>success\<close>, the last message shown says so.\<close>

definition answered :: "env \<Rightarrow> nat \<Rightarrow> turn list \<Rightarrow> state \<Rightarrow> (error + apiJson) option \<Rightarrow> bool" where
  "answered net n0 h s p =
     (n0 < apiCount s
      \<and> (case p of
           Some r \<Rightarrow>
             conversationHistory s = h \<and> apiFlags (events s) ! (apiCount s - 1)
             \<and> r = fetchApi net (apiCount s - 1)
         | None \<Rightarrow>
             conversationHistory s
               = h @ contribution (apiFlags (events s) ! (apiCount s - 1))
                       (fetchApi net (apiCount s - 1))
             \<and> (refused (fetchApi net (apiCount s - 1)) \<longrightarrow>
                  last (chatbox s) = Message ''Error from API.'' False)))"

section \<open>Example inputs\<close>

text \<open>A Wikipedia answer with one hit, one with none, and an instant answer with an
  abstract and no link.\<close>

definition oneHit :: "string \<Rightarrow> wikiResponse" where
  "oneHit u =
     WikiSearch [\<lparr> hitTitle = ''Bitcoin'',
                   hitSnippet = ''<span class=\"searchmatch\">Bitcoin</span> is a cryptocurrency'' \<rparr>]"

definition noWiki :: "string \<Rightarrow> wikiResponse" where
  "noWiki u = WikiFailure"

definition abstractOnly :: "string \<Rightarrow> ddgResponse" where
  "abstractOnly u =
     DdgBody \<lparr> AbstractText = Some ''Bitcoin is a digital currency.'',
               AbstractURL = None, RelatedTopics = None \<rparr>"

text \<open>A network on which both search sources fail and the API answers, and one on
  which every request fails.\<close>

definition searchDown :: env where
  "searchDown =
     \<lparr> fetchWiki = (\<lambda>u. WikiFailure),
       fetchDdg = (\<lambda>u. DdgFailure),
       fetchApi = (\<lambda>n. Inr (JObj (Some ''success'') (Some ''Bitcoin is a digital currency.'') None)) \<rparr>"

definition allDown :: env where
  "allDown =
     \<lparr> fetchWiki = (\<lambda>u. WikiFailure), fetchDdg = (\<lambda>u. DdgFailure),
       fetchApi = (\<lambda>n. Inl FetchFailed) \<rparr>"

text \<open>A network on which the API answers every request with an error status.\<close>

definition refusing :: env where
  "refusing =
     \<lparr> fetchWiki = (\<lambda>u. WikiFailure), fetchDdg = (\<lambda>u. DdgFailure),
       fetchApi = (\<lambda>n. Inr (JObj (Some ''error'') None None)) \<rparr>"

text \<open>The page before the first chat is created, the page with one new chat, and
  that page with a message typed.\<close>

definition blankPage :: state where
  "blankPage =
     \<lparr> isGenerating = False, conversationHistory = [], currentChatId = None, allChats = [],
       localStorage = None, chatbox = [], chatInput = [], typingText = [],
       typingHidden = True, sendDisabled = False, events = [] \<rparr>"

definition firstChat :: state where
  "firstChat = createNewChat (''chat_1'', 0) blankPage"

definition typed :: "string \<Rightarrow> state" where
  "typed m = firstChat\<lparr> chatInput := m \<rparr>"

section \<open>Code units and case\<close>

lemma code_lt: "code c < 256"
  by (simp add: code_def)

lemma code_inj: "code a = code b \<longleftrightarrow> a = b"
  by (simp add: code_def)

lemma char_of_code: "char_of (code c) = c"
  by (simp add: code_def)

lemma code_char_of: "n < 256 \<Longrightarrow> code (char_of n) = n"
  by (simp add: code_def)

lemma lowered_iff: "lowered c \<longleftrightarrow> \<not> ((65 \<le> code c \<and> code c \<le> 90) \<or> (192 \<le> code c \<and> code c \<le> 222 \<and> code c \<noteq> 215))"
proof -
  have "char_of (code c + 32) \<noteq> c"
  proof
    assume "char_of (code c + 32) = c"
    then have "code (char_of (code c + 32)) = code c" by simp
    moreover have "code (char_of (code c + 32)) = (code c + 32) mod 256"
      by (simp add: code_def)
    ultimately show False using code_lt [of c] by (auto simp: mod_if split: if_splits)
  qed
  then show ?thesis by (auto simp: lowered_def lowerChar_def Let_def)
qed

lemma lowered_lowerChar: "lowered (lowerChar c)"
  using code_lt [of c]
  by (auto simp: lowered_iff lowerChar_def Let_def code_char_of)

lemma code_canonicalize:
  "code (canonicalize x) = (if isLowerLetter (code x) then code x - 32 else code x)"
  using code_lt [of x] by (simp add: canonicalize_def Let_def code_char_of isLowerLetter_def)

lemma lower_to_upper: "isLowerLetter n \<Longrightarrow> isUpperLetter (n - 32)"
  unfolding isLowerLetter_def isUpperLetter_def by arith

lemma shift_inj: "isLowerLetter n \<Longrightarrow> isLowerLetter m \<Longrightarrow> n - 32 = m - 32 \<Longrightarrow> n = m"
  unfolding isLowerLetter_def by arith

lemma canonicalize_eq_lowered:
  assumes "lowered a" "lowered c"
  shows "canonicalize a = canonicalize c \<longleftrightarrow> a = c"
proof
  assume eq: "canonicalize a = canonicalize c"
  then have e: "code (canonicalize a) = code (canonicalize c)" by simp
  have ua: "\<not> isUpperLetter (code a)" and uc: "\<not> isUpperLetter (code c)"
    using assms by (simp_all add: lowered_iff isUpperLetter_def)
  have "code a = code c"
  proof (cases "isLowerLetter (code a)")
    case True
    note la = this
    show ?thesis
    proof (cases "isLowerLetter (code c)")
      case True
      with la e show ?thesis by (simp add: code_canonicalize shift_inj)
    next
      case False
      with la e have "code a - 32 = code c" by (simp add: code_canonicalize)
      with lower_to_upper [OF la] uc show ?thesis by simp
    qed
  next
    case False
    note la = this
    show ?thesis
    proof (cases "isLowerLetter (code c)")
      case True
      with la e have "code a = code c - 32" by (simp add: code_canonicalize)
      with lower_to_upper [OF True] ua show ?thesis by simp
    next
      case False
      with la e show ?thesis by (simp add: code_canonicalize)
    qed
  qed
  then show "a = c" by (simp add: code_inj)
qed simp

lemma chEq_lowered: "lowered a \<Longrightarrow> lowered c \<Longrightarrow> chEq True a c = chEq False a c"
  by (simp add: chEq_def canonicalize_eq_lowered)

section \<open>Matching without the flag \<open>i\<close>\<close>

lemma matchLit_rest: "q \<in> set (matchLit ic s p) \<Longrightarrow> set (snd q) \<subseteq> set (snd p)"
  by (induction ic s p rule: matchLit.induct) (auto split: if_splits)

lemma matchStar_rest: "q \<in> set (matchStar k prev s) \<Longrightarrow> set (snd q) \<subseteq> set s"
  by (induction k prev s rule: matchStar.induct) (auto split: if_splits)

lemma rmatch_rest:
  "q \<in> set (rmatch ic r p) \<Longrightarrow> set (snd q) \<subseteq> set (snd p)"
  "q \<in> set (matchAlt ic rs p) \<Longrightarrow> set (snd q) \<subseteq> set (snd p)"
  "q \<in> set (matchSeq ic rs ps) \<Longrightarrow> \<exists>p\<in>set ps. set (snd q) \<subseteq> set (snd p)"
proof (induction ic r p and ic rs p and ic rs ps arbitrary: q and q and q
       rule: rmatch_matchAlt_matchSeq.induct)
  case (1 ic s p)
  then show ?case by (simp add: matchLit_rest)
next
  case (2 ic k prev s)
  then show ?case by (auto split: list.splits if_splits)
next
  case (3 ic k prev s)
  then show ?case using matchStar_rest by fastforce
next
  case (4 ic k prev s)
  then show ?case using matchStar_rest by (fastforce split: list.splits if_splits)
next
  case (5 ic rs p)
  then show ?case by simp
next
  case (6 ic rs p)
  then show ?case by fastforce
next
  case (7 ic prev s)
  then show ?case by (auto split: if_splits)
next
  case (8 ic prev s)
  then show ?case by (auto split: if_splits)
next
  case (9 ic p)
  then show ?case by simp
next
  case (10 ic r rs p)
  from 10(3) have "q \<in> set (rmatch ic r p) \<or> q \<in> set (matchAlt ic rs p)" by simp
  then show ?case using 10(1,2) by blast
next
  case (11 ic ps)
  then show ?case by auto
next
  case (12 ic r rs ps)
  from 12(2) [OF 12(3)[simplified]] obtain p' where
    p': "p' \<in> set (concat (map (rmatch ic r) ps))" "set (snd q) \<subseteq> set (snd p')" by auto
  then obtain p where "p \<in> set ps" "p' \<in> set (rmatch ic r p)" by auto
  with 12(1) p' show ?case by blast
qed

lemma matchLit_lowered:
  "list_all lowered s \<Longrightarrow> list_all lowered rest \<Longrightarrow>
   matchLit True s (prev, rest) = matchLit False s (prev, rest)"
proof (induction s arbitrary: prev rest)
  case Nil
  then show ?case by simp
next
  case (Cons a as)
  then show ?case by (cases rest) (auto simp: chEq_lowered)
qed

lemma rmatch_lowered:
  "loweredRegex r \<Longrightarrow> list_all lowered (snd p) \<Longrightarrow> rmatch True r p = rmatch False r p"
  "list_all loweredRegex rs \<Longrightarrow> list_all lowered (snd p) \<Longrightarrow>
     matchAlt True rs p = matchAlt False rs p"
  "list_all loweredRegex rs \<Longrightarrow> \<forall>p\<in>set ps. list_all lowered (snd p) \<Longrightarrow>
     matchSeq True rs ps = matchSeq False rs ps"
proof (induction "True" r p and "True" rs p and "True" rs ps
       rule: rmatch_matchAlt_matchSeq.induct)
  case (1 s p)
  then show ?case by (cases p) (simp add: matchLit_lowered)
next
  case (12 r rs ps)
  have m: "map (rmatch True r) ps = map (rmatch False r) ps"
    using 12 by simp
  have "\<forall>q\<in>set (concat (map (rmatch True r) ps)). list_all lowered (snd q)"
  proof
    fix q assume "q \<in> set (concat (map (rmatch True r) ps))"
    then obtain p where p: "p \<in> set ps" "q \<in> set (rmatch True r p)" by auto
    from rmatch_rest(1) [OF p(2)] 12(4) p(1) show "list_all lowered (snd q)"
      by (auto simp: list_all_iff)
  qed
  note lo = this
  have "matchSeq True (r # rs) ps = matchSeq True rs (concat (map (rmatch True r) ps))"
    by simp
  also have "\<dots> = matchSeq False rs (concat (map (rmatch True r) ps))"
    using 12(2) 12(3) lo by simp
  also have "\<dots> = matchSeq False rs (concat (map (rmatch False r) ps))"
    by (simp only: m)
  also have "\<dots> = matchSeq False (r # rs) ps"
    by simp
  finally show ?case .
qed simp_all

lemma positions_rest: "p \<in> set (positions prev s) \<Longrightarrow> set (snd p) \<subseteq> set s"
  by (induction prev s rule: positions.induct) auto

lemma test_lowered:
  assumes "loweredRegex r" "list_all lowered s"
  shows "test True r s = test False r s"
proof -
  have "rmatch True r p = rmatch False r p" if "p \<in> set (positions None s)" for p
    using positions_rest [OF that] assms by (intro rmatch_lowered(1)) (auto simp: list_all_iff)
  then show ?thesis by (simp add: test_def list_ex_iff)
qed

lemma lowered_lowerQueryOf: "list_all lowered (lowerQueryOf q)"
proof -
  have "set (trim s) \<subseteq> set s" for s
  proof
    fix x assume "x \<in> set (trim s)"
    then have "x \<in> set (dropWhile isSpace (rev (dropWhile isSpace s)))"
      by (simp add: trim_def)
    then have "x \<in> set (rev (dropWhile isSpace s))" by (rule set_dropWhileD)
    then have "x \<in> set (dropWhile isSpace s)" by simp
    then show "x \<in> set s" by (rule set_dropWhileD)
  qed
  then show ?thesis
    unfolding lowerQueryOf_def toLowerCase_def list_all_iff
    using lowered_lowerChar by fastforce
qed

section \<open>The score as a sum\<close>

lemma add_if: "(if c then s + w else s) = s + (if c then w else (0::int))"
  by simp

lemma sub_if: "(if c then s - w else s) = s + (if c then - w else (0::int))"
  by simp

lemma searchScore_sum: "searchScore q = sum_list (contributions (extractFeatures q))"
  unfolding searchScore_def Let_def add_if sub_if
  by (simp add: contributions_def extractFeatures_def Let_def split del: if_split)

lemma loweredRegex_questionStarters: "loweredRegex questionStarters"
  by code_simp

lemma loweredRegex_comparativePattern: "loweredRegex comparativePattern"
  by code_simp

lemma loweredRegex_eventPattern: "loweredRegex eventPattern"
  by code_simp

lemma loweredRegex_statsPattern: "loweredRegex statsPattern"
  by code_simp

lemma loweredRegex_locationPattern: "loweredRegex locationPattern"
  by code_simp

lemma extractFeatures_eval:
  assumes "lowerQueryOf q = lq"
  shows "extractFeatures q =
     \<lparr> fHasTimeIndicator = list_ex (includesStr lq) timeKeywords,
       fHasRecentYear = test False yearPattern lq,
       fIsQuestion = test False questionStarters lq,
       fHasNamedEntity = list_ex (includesStr lq) namedEntities,
       fNeedsRealTimeData = list_ex (includesStr lq) realTimeIndicators,
       fHasComparative = test False comparativePattern lq,
       fIsEventQuery = test False eventPattern lq,
       fNeedsStats = test False statsPattern lq,
       fHasLocation = test False locationPattern lq,
       fIsCreativeRequest =
         (list_ex (includesStr lq) noSearchKeywords \<and> \<not> list_ex (includesStr lq) timeKeywords),
       fIsCommand = startsWith lq ''/'',
       fWordCount = length (splitSpaces lq) \<rparr>"
proof -
  have low: "list_all lowered lq"
    using lowered_lowerQueryOf [of q] assms by simp
  show ?thesis
    unfolding extractFeatures_def Let_def assms isQuestion_def hasComparative_def
      isEventQuery_def needsStats_def hasLocation_def
      test_lowered [OF loweredRegex_questionStarters low]
      test_lowered [OF loweredRegex_comparativePattern low]
      test_lowered [OF loweredRegex_eventPattern low]
      test_lowered [OF loweredRegex_statsPattern low]
      test_lowered [OF loweredRegex_locationPattern low]
    by (simp add: hasTimeIndicator_def hasRecentYear_def hasNamedEntity_def
        needsRealTimeData_def isCreativeRequest_def isCommand_def wordsOf_def)
qed

section \<open>The empty query\<close>

lemma extractFeatures_empty:
  "extractFeatures [] =
     \<lparr> fHasTimeIndicator = False, fHasRecentYear = False, fIsQuestion = False,
       fHasNamedEntity = False, fNeedsRealTimeData = False, fHasComparative = False,
       fIsEventQuery = False, fNeedsStats = False, fHasLocation = False,
       fIsCreativeRequest = False, fIsCommand = False, fWordCount = 1 \<rparr>"
  by code_simp

lemma words_empty: "wordsOf (lowerQueryOf []) = [[]]"
  by code_simp

text \<open>
  C5, as the claim states it, fails: for the empty query every flag is false, but
  \<open>''''.split(/\s+/)\<close> is the array of one empty string, so \<open>words.length\<close> is 1.
\<close>

theorem empty_query_wordCount_counterexample:
  "\<not> (extractFeatures [] =
     \<lparr> fHasTimeIndicator = False, fHasRecentYear = False, fIsQuestion = False,
       fHasNamedEntity = False, fNeedsRealTimeData = False, fHasComparative = False,
       fIsEventQuery = False, fNeedsStats = False, fHasLocation = False,
       fIsCreativeRequest = False, fIsCommand = False, fWordCount = 0 \<rparr>)"
  by (simp add: extractFeatures_empty)

text \<open>
  C5, amended: for the empty query every boolean flag is false and the word count
  is 1, the only word being the empty string.
\<close>

theorem empty_query_features:
  "extractFeatures [] =
     \<lparr> fHasTimeIndicator = False, fHasRecentYear = False, fIsQuestion = False,
       fHasNamedEntity = False, fNeedsRealTimeData = False, fHasComparative = False,
       fIsEventQuery = False, fNeedsStats = False, fHasLocation = False,
       fIsCreativeRequest = False, fIsCommand = False, fWordCount = 1 \<rparr>
   \<and> wordsOf (lowerQueryOf []) = [[]]"
  by (simp add: extractFeatures_empty words_empty)

section \<open>The score is the weighted sum\<close>

lemma shouldPerformWebSearch_iff: "shouldPerformWebSearch q \<longleftrightarrow> 30 \<le> searchScore q"
  by (simp add: shouldPerformWebSearch_def)

lemma sum_list_perm: "mset cs = mset ds \<Longrightarrow> sum_list cs = sum_list (ds :: int list)"
  by (metis sum_mset_sum_list)

lemma lowerQueryOf_bitcoin:
  "lowerQueryOf ''What is the price of Bitcoin today?'' = ''what is the price of bitcoin today?''"
  by code_simp

lemma extractFeatures_bitcoin:
  "extractFeatures ''What is the price of Bitcoin today?'' =
     \<lparr> fHasTimeIndicator = True, fHasRecentYear = False, fIsQuestion = True,
       fHasNamedEntity = True, fNeedsRealTimeData = True, fHasComparative = False,
       fIsEventQuery = False, fNeedsStats = False, fHasLocation = False,
       fIsCreativeRequest = False, fIsCommand = False, fWordCount = 7 \<rparr>"
  by (subst extractFeatures_eval [OF lowerQueryOf_bitcoin]) code_simp

text \<open>
  C2: the score that the twelve \<open>if\<close> statements compute is the sum of the twelve
  contributions of the table, whatever the order in which they are added, and the
  decision is \<open>score >= 30\<close>.
\<close>

theorem score_is_weighted_sum:
  "searchScore q =
     (let f = extractFeatures q in
        (if fHasTimeIndicator f then 40 else 0)
      + (if fHasRecentYear f then 30 else 0)
      + (if fNeedsRealTimeData f then 35 else 0)
      + (if fIsEventQuery f then 35 else 0)
      + (if fHasNamedEntity f \<and> fIsQuestion f then 25 else 0)
      + (if fHasComparative f then 20 else 0)
      + (if fNeedsStats f then 20 else 0)
      + (if fHasLocation f \<and> fIsQuestion f then 15 else 0)
      + (if fIsQuestion f \<and> fWordCount f > 4 then 10 else 0)
      + (if fIsCreativeRequest f then - 50 else 0)
      + (if fIsCommand f then - 100 else 0)
      + (if fWordCount f < 3 then - 20 else 0))
   \<and> (shouldPerformWebSearch q \<longleftrightarrow> searchScore q \<ge> 30)
   \<and> (\<forall>cs. mset cs = mset (contributions (extractFeatures q)) \<longrightarrow> sum_list cs = searchScore q)"
proof (intro conjI allI impI)
  show "searchScore q =
     (let f = extractFeatures q in
        (if fHasTimeIndicator f then 40 else 0)
      + (if fHasRecentYear f then 30 else 0)
      + (if fNeedsRealTimeData f then 35 else 0)
      + (if fIsEventQuery f then 35 else 0)
      + (if fHasNamedEntity f \<and> fIsQuestion f then 25 else 0)
      + (if fHasComparative f then 20 else 0)
      + (if fNeedsStats f then 20 else 0)
      + (if fHasLocation f \<and> fIsQuestion f then 15 else 0)
      + (if fIsQuestion f \<and> fWordCount f > 4 then 10 else 0)
      + (if fIsCreativeRequest f then - 50 else 0)
      + (if fIsCommand f then - 100 else 0)
      + (if fWordCount f < 3 then - 20 else 0))"
    unfolding searchScore_sum contributions_def Let_def
    by (simp split del: if_split)
next
  show "shouldPerformWebSearch q \<longleftrightarrow> searchScore q \<ge> 30"
    by (rule shouldPerformWebSearch_iff)
next
  fix cs assume "mset cs = mset (contributions (extractFeatures q))"
  then show "sum_list cs = searchScore q"
    unfolding searchScore_sum by (rule sum_list_perm)
qed

theorem score_is_weighted_sum_witness:
  "mset [0, 0, 0, 10, 0, 0, 0, 25, 0, 35, 0, 40]
     = mset (contributions (extractFeatures ''What is the price of Bitcoin today?''))
   \<and> sum_list [0, 0, 0, 10, 0, 0, 0, 25, 0, 35, 0, 40]
     = searchScore ''What is the price of Bitcoin today?''
   \<and> searchScore ''What is the price of Bitcoin today?'' = 110
   \<and> shouldPerformWebSearch ''What is the price of Bitcoin today?''"
proof -
  have m: "mset [0, 0, 0, 10, 0, 0, 0, 25, 0, 35, 0, 40]
     = mset (contributions (extractFeatures ''What is the price of Bitcoin today?''))"
    by (simp add: extractFeatures_bitcoin contributions_def)
  from score_is_weighted_sum [of "''What is the price of Bitcoin today?''"]
  have a: "shouldPerformWebSearch ''What is the price of Bitcoin today?''
             \<longleftrightarrow> searchScore ''What is the price of Bitcoin today?'' \<ge> 30"
    and b: "\<forall>cs. mset cs = mset (contributions (extractFeatures ''What is the price of Bitcoin today?''))
             \<longrightarrow> sum_list cs = searchScore ''What is the price of Bitcoin today?''"
    by blast+
  from b m have s: "sum_list [0, 0, 0, 10, 0, 0, 0, 25, 0, 35, 0, 40]
     = searchScore ''What is the price of Bitcoin today?''" by blast
  then have "searchScore ''What is the price of Bitcoin today?'' = 110" by simp
  with a m s show ?thesis by simp
qed

section \<open>Commands\<close>

lemma matchSeq_Nil: "matchSeq ic rs [] = []"
  by (induction rs) simp_all

lemma positions_prev: "p \<in> set (positions (Some c) s) \<Longrightarrow> fst p \<noteq> None"
  by (induction s arbitrary: c) auto

lemma canonicalize_slash: "canonicalize a = CHR ''/'' \<longleftrightarrow> a = CHR ''/''"
proof
  assume "canonicalize a = CHR ''/''"
  then have "code (canonicalize a) = 47" by (simp add: code_def)
  then have "code a = 47"
    by (auto simp: code_canonicalize isLowerLetter_def split: if_splits)
  then have "code a = code (CHR ''/'')" by (simp add: code_def)
  then show "a = CHR ''/''" by (simp only: code_inj)
next
  assume "a = CHR ''/''"
  then show "canonicalize a = CHR ''/''" by (simp add: canonicalize_def code_def)
qed

lemma chEq_slash: "chEq True a (CHR ''/'') \<longleftrightarrow> a = CHR ''/''"
proof -
  have "canonicalize (CHR ''/'') = CHR ''/''" by (simp add: canonicalize_slash)
  then have "chEq True a (CHR ''/'') \<longleftrightarrow> canonicalize a = CHR ''/''"
    by (simp only: chEq_def if_True)
  then show ?thesis by (simp only: canonicalize_slash)
qed

lemma questionStarters_at_slash:
  "rmatch True questionStarters (None, CHR ''/'' # rest) = []"
  by (simp add: questionStarters_def chEq_slash)

lemma questionStarters_later:
  "fst p \<noteq> None \<Longrightarrow> rmatch ic questionStarters p = []"
  by (cases p) (auto simp: questionStarters_def matchSeq_Nil)

lemma command_not_question:
  assumes "isCommand lq"
  shows "\<not> isQuestion lq"
proof -
  from assms obtain rest where lq: "lq = CHR ''/'' # rest"
    by (cases lq) (auto simp: isCommand_def)
  have "rmatch True questionStarters p = []" if "p \<in> set (positions None lq)" for p
  proof -
    from that have "p = (None, CHR ''/'' # rest) \<or> p \<in> set (positions (Some CHR ''/'') rest)"
      by (simp add: lq)
    then show ?thesis
    proof
      assume "p = (None, CHR ''/'' # rest)"
      then show ?thesis by (simp only: questionStarters_at_slash)
    next
      assume "p \<in> set (positions (Some CHR ''/'') rest)"
      then have "fst p \<noteq> None" by (rule positions_prev)
      then show ?thesis by (rule questionStarters_later)
    qed
  qed
  then show ?thesis
    by (simp add: isQuestion_def test_def list_ex_iff)
qed

lemma lowerQueryOf_command:
  "lowerQueryOf ''/search latest stock market news: what happened in 2025''
     = ''/search latest stock market news: what happened in 2025''"
  by code_simp

lemma extractFeatures_command:
  "extractFeatures ''/search latest stock market news: what happened in 2025'' =
     \<lparr> fHasTimeIndicator = True, fHasRecentYear = True, fIsQuestion = False,
       fHasNamedEntity = True, fNeedsRealTimeData = True, fHasComparative = False,
       fIsEventQuery = True, fNeedsStats = False, fHasLocation = False,
       fIsCreativeRequest = False, fIsCommand = True, fWordCount = 9 \<rparr>"
  by (subst extractFeatures_eval [OF lowerQueryOf_command]) code_simp

lemma searchScore_command:
  "searchScore ''/search latest stock market news: what happened in 2025'' = 40"
  by (simp add: searchScore_sum extractFeatures_command contributions_def)

text \<open>
  C1, as the claim states it, fails: the query below starts with \<open>/\<close>, matches a time
  keyword (40), a year (30), a real-time keyword (35) and the event pattern (35); with
  the penalty of 100 its score is 40, and the decision is to search.
\<close>

theorem command_query_searched_counterexample:
  "isCommand (lowerQueryOf ''/search latest stock market news: what happened in 2025'')
   \<and> searchScore ''/search latest stock market news: what happened in 2025'' = 40
   \<and> shouldPerformWebSearch ''/search latest stock market news: what happened in 2025''"
  by (simp add: lowerQueryOf_command isCommand_def searchScore_command
      shouldPerformWebSearch_def)

lemma command_score:
  assumes "isCommand (lowerQueryOf q)"
  shows "searchScore q =
      (if hasTimeIndicator (lowerQueryOf q) then 40 else 0)
    + (if hasRecentYear (lowerQueryOf q) then 30 else 0)
    + (if needsRealTimeData (lowerQueryOf q) then 35 else 0)
    + (if isEventQuery (lowerQueryOf q) then 35 else 0)
    + (if hasComparative (lowerQueryOf q) then 20 else 0)
    + (if needsStats (lowerQueryOf q) then 20 else 0)
    + (if isCreativeRequest (lowerQueryOf q) then - 50 else 0)
    - 100
    + (if length (wordsOf (lowerQueryOf q)) < 3 then - 20 else 0)"
  using assms command_not_question [OF assms]
  unfolding searchScore_def Let_def add_if sub_if
  by (simp split del: if_split)

text \<open>
  C1, amended: for a query whose normalized form starts with \<open>/\<close> the question flag
  is false, the score is at most 80, and the decision is false whenever the weights
  of the matched features among time indicator (40), recent year (30), real-time data
  (35), event (35), comparative (20) and statistics (20) total less than 130; this is
  so whenever at most three of these six features match.
\<close>

theorem command_query_bound:
  assumes "isCommand (lowerQueryOf q)"
  shows "\<not> isQuestion (lowerQueryOf q)
    \<and> searchScore q \<le> 80
    \<and> ((if hasTimeIndicator (lowerQueryOf q) then 40 else 0)
       + (if hasRecentYear (lowerQueryOf q) then 30 else 0)
       + (if needsRealTimeData (lowerQueryOf q) then 35 else 0)
       + (if isEventQuery (lowerQueryOf q) then 35 else 0)
       + (if hasComparative (lowerQueryOf q) then 20 else 0)
       + (if needsStats (lowerQueryOf q) then 20 else (0::int)) < 130
       \<longrightarrow> \<not> shouldPerformWebSearch q)
    \<and> (length (filter id
          [hasTimeIndicator (lowerQueryOf q), hasRecentYear (lowerQueryOf q),
           needsRealTimeData (lowerQueryOf q), isEventQuery (lowerQueryOf q),
           hasComparative (lowerQueryOf q), needsStats (lowerQueryOf q)]) \<le> 3
       \<longrightarrow> \<not> shouldPerformWebSearch q)"
proof -
  define t where "t = hasTimeIndicator (lowerQueryOf q)"
  define y where "y = hasRecentYear (lowerQueryOf q)"
  define r where "r = needsRealTimeData (lowerQueryOf q)"
  define e where "e = isEventQuery (lowerQueryOf q)"
  define c where "c = hasComparative (lowerQueryOf q)"
  define n where "n = needsStats (lowerQueryOf q)"
  define k where "k = isCreativeRequest (lowerQueryOf q)"
  define w where "w = (length (wordsOf (lowerQueryOf q)) < 3)"
  define P :: int where "P = (if t then 40 else 0) + (if y then 30 else 0)
    + (if r then 35 else 0) + (if e then 35 else 0) + (if c then 20 else 0)
    + (if n then 20 else 0)"
  have sc: "searchScore q = P + (if k then - 50 else 0) - 100 + (if w then - 20 else 0)"
    unfolding command_score [OF assms] P_def t_def y_def r_def e_def c_def n_def k_def w_def
    by (simp split del: if_split)
  have Pmax: "P \<le> 180" unfolding P_def by simp
  have few: "P \<le> 110" if "length (filter id [t, y, r, e, c, n]) \<le> 3"
    using that unfolding P_def by (cases t; cases y; cases r; cases e; cases c; cases n) simp_all
  have "searchScore q \<le> P - 100" unfolding sc by simp
  then have le: "searchScore q \<le> 80" and lt: "P < 130 \<Longrightarrow> \<not> shouldPerformWebSearch q"
    using Pmax by (simp_all add: shouldPerformWebSearch_def)
  from few lt have "length (filter id [t, y, r, e, c, n]) \<le> 3 \<Longrightarrow> \<not> shouldPerformWebSearch q"
    by fastforce
  with le lt command_not_question [OF assms] show ?thesis
    unfolding P_def t_def y_def r_def e_def c_def n_def by blast
qed

lemma lowerQueryOf_image: "lowerQueryOf ''/image a cat'' = ''/image a cat''"
  by code_simp

lemma extractFeatures_image:
  "extractFeatures ''/image a cat'' =
     \<lparr> fHasTimeIndicator = False, fHasRecentYear = False, fIsQuestion = False,
       fHasNamedEntity = False, fNeedsRealTimeData = False, fHasComparative = False,
       fIsEventQuery = False, fNeedsStats = False, fHasLocation = False,
       fIsCreativeRequest = False, fIsCommand = True, fWordCount = 3 \<rparr>"
  by (subst extractFeatures_eval [OF lowerQueryOf_image]) code_simp

theorem command_query_bound_witness:
  "isCommand (lowerQueryOf ''/image a cat'')
   \<and> \<not> isQuestion (lowerQueryOf ''/image a cat'')
   \<and> searchScore ''/image a cat'' \<le> 80
   \<and> \<not> shouldPerformWebSearch ''/image a cat''"
proof -
  have c: "isCommand (lowerQueryOf ''/image a cat'')"
    by (simp add: lowerQueryOf_image isCommand_def)
  have f: "\<not> hasTimeIndicator (lowerQueryOf ''/image a cat'')"
    "\<not> hasRecentYear (lowerQueryOf ''/image a cat'')"
    "\<not> needsRealTimeData (lowerQueryOf ''/image a cat'')"
    "\<not> isEventQuery (lowerQueryOf ''/image a cat'')"
    "\<not> hasComparative (lowerQueryOf ''/image a cat'')"
    "\<not> needsStats (lowerQueryOf ''/image a cat'')"
    using extractFeatures_image unfolding extractFeatures_def Let_def by simp_all
  from command_query_bound [OF c] f c show ?thesis by simp
qed

section \<open>Normalization\<close>

lemma isSpace_code: "isSpace c \<longleftrightarrow> code c \<in> {9, 10, 11, 12, 13, 32, 160}"
proof -
  have e: "code c = n \<longleftrightarrow> c = char_of n" if "n < 256" for n
    using that code_char_of char_of_code by metis
  have "char_of (9::nat) = CHR 0x09" "char_of (10::nat) = CHR 0x0A"
    "char_of (11::nat) = CHR 0x0B" "char_of (12::nat) = CHR 0x0C"
    "char_of (13::nat) = CHR 0x0D" "char_of (32::nat) = CHR 0x20"
    "char_of (160::nat) = CHR 0xA0"
    by code_simp+
  then show ?thesis by (simp add: isSpace_def whiteSpace_def e)
qed

lemma lowerChar_space: "isSpace c \<Longrightarrow> lowerChar c = c"
  by (auto simp: isSpace_code lowerChar_def Let_def)

lemma toLowerCase_spaces: "list_all isSpace a \<Longrightarrow> toLowerCase a = a"
  by (induction a) (simp_all add: toLowerCase_def lowerChar_space)

lemma toLowerCase_append: "toLowerCase (a @ b) = toLowerCase a @ toLowerCase b"
  by (simp add: toLowerCase_def)

lemma dropWhile_spaces_append: "list_all P a \<Longrightarrow> dropWhile P (a @ s) = dropWhile P s"
  by (induction a) simp_all

lemma trim_leading: "list_all isSpace a \<Longrightarrow> trim (a @ s) = trim s"
  by (simp add: trim_def dropWhile_spaces_append)

lemma trim_trailing:
  assumes "list_all isSpace b"
  shows "trim (s @ b) = trim s"
proof (cases "list_all isSpace s")
  case True
  with assms have "dropWhile isSpace (s @ b) = []" "dropWhile isSpace s = []"
    by (auto simp: dropWhile_eq_Nil_conv list_all_iff)
  then show ?thesis by (simp only: trim_def)
next
  case False
  then obtain x where "x \<in> set s" "\<not> isSpace x" by (auto simp: list_all_iff)
  then have "dropWhile isSpace (s @ b) = dropWhile isSpace s @ b"
    by (rule dropWhile_append1)
  moreover have "list_all isSpace (rev b)" using assms by (simp add: list_all_iff)
  ultimately show ?thesis
    by (simp add: trim_def dropWhile_spaces_append)
qed

lemma trim_padded:
  "list_all isSpace a \<Longrightarrow> list_all isSpace b \<Longrightarrow> trim (a @ s @ b) = trim s"
  by (simp add: trim_leading trim_trailing)

lemma lowerQueryOf_padded:
  assumes "list_all isSpace a" "list_all isSpace b" "toLowerCase q' = toLowerCase q"
  shows "lowerQueryOf (a @ q' @ b) = lowerQueryOf q"
  using assms
  by (simp add: lowerQueryOf_def toLowerCase_append toLowerCase_spaces trim_padded)

lemma normalized_same_result:
  assumes "lowerQueryOf q1 = lowerQueryOf q2"
  shows "extractFeatures q1 = extractFeatures q2"
    and "searchScore q1 = searchScore q2"
    and "shouldPerformWebSearch q1 = shouldPerformWebSearch q2"
proof -
  show e: "extractFeatures q1 = extractFeatures q2"
    by (simp add: extractFeatures_def assms)
  then show s: "searchScore q1 = searchScore q2"
    by (simp add: searchScore_sum)
  then show "shouldPerformWebSearch q1 = shouldPerformWebSearch q2"
    by (simp add: shouldPerformWebSearch_def)
qed

text \<open>
  C4: the features, the score and the decision depend on the query only through its
  lowercased and trimmed form; a query padded with white space, or one that differs
  in the case of its letters only, has the same such form.
\<close>

theorem normalized_form_decides:
  "(lowerQueryOf q1 = lowerQueryOf q2 \<longrightarrow>
      extractFeatures q1 = extractFeatures q2
      \<and> searchScore q1 = searchScore q2
      \<and> shouldPerformWebSearch q1 = shouldPerformWebSearch q2)
   \<and> (list_all isSpace a \<and> list_all isSpace b \<and> toLowerCase q' = toLowerCase q \<longrightarrow>
      extractFeatures (a @ q' @ b) = extractFeatures q
      \<and> searchScore (a @ q' @ b) = searchScore q
      \<and> shouldPerformWebSearch (a @ q' @ b) = shouldPerformWebSearch q)"
  using normalized_same_result lowerQueryOf_padded by blast

theorem normalized_form_decides_witness:
  "lowerQueryOf ''  Explain Quantum Computing '' = lowerQueryOf ''explain quantum computing''
   \<and> extractFeatures ''  Explain Quantum Computing '' = extractFeatures ''explain quantum computing''
   \<and> searchScore ''  Explain Quantum Computing '' = searchScore ''explain quantum computing''
   \<and> shouldPerformWebSearch ''  Explain Quantum Computing ''
       = shouldPerformWebSearch ''explain quantum computing''
   \<and> list_all isSpace ''  '' \<and> list_all isSpace '' ''
   \<and> toLowerCase ''Explain Quantum Computing'' = toLowerCase ''explain quantum computing''
   \<and> searchScore (''  '' @ ''Explain Quantum Computing'' @ '' '')
       = searchScore ''explain quantum computing''"
proof -
  have n: "lowerQueryOf ''  Explain Quantum Computing '' = lowerQueryOf ''explain quantum computing''"
    by code_simp
  have sp: "list_all isSpace ''  ''" "list_all isSpace '' ''"
    by code_simp+
  have lc: "toLowerCase ''Explain Quantum Computing'' = toLowerCase ''explain quantum computing''"
    by code_simp
  from normalized_form_decides
    [of "''  Explain Quantum Computing ''" "''explain quantum computing''"
        "''  ''" "'' ''" "''Explain Quantum Computing''" "''explain quantum computing''"]
    n sp lc
  show ?thesis by simp
qed

section \<open>The search sources\<close>

lemma stripTags_other: "c \<noteq> CHR ''<'' \<Longrightarrow> stripTags (c # cs) = c # stripTags cs"
  by simp

lemma stripTags_open:
  assumes "dropWhile (\<lambda>x. x \<noteq> CHR ''>'') cs = []"
  shows "stripTags (CHR ''<'' # cs) = CHR ''<'' # stripTags cs"
  by (simp only: stripTags.simps assms list.case refl if_True)

lemma stripTags_tag:
  assumes "dropWhile (\<lambda>x. x \<noteq> CHR ''>'') cs = x # rest"
  shows "stripTags (CHR ''<'' # cs) = stripTags rest"
  by (simp only: stripTags.simps assms list.case refl if_True)

lemma set_stripTags: "set (stripTags s) \<subseteq> set s"
proof (induction s rule: stripTags.induct)
  case 1
  then show ?case by simp
next
  case (2 c cs)
  show ?case
  proof (cases "c = CHR ''<''")
    case False
    from 2(3) [OF False] show ?thesis
      unfolding stripTags_other [OF False] by auto
  next
    case True
    show ?thesis
    proof (cases "dropWhile (\<lambda>x. x \<noteq> CHR ''>'') cs")
      case Nil
      from 2(1) [OF True Nil] show ?thesis
        unfolding True stripTags_open [OF Nil] by auto
    next
      case (Cons x rest)
      have "set rest \<subseteq> set (dropWhile (\<lambda>x. x \<noteq> CHR ''>'') cs)"
        unfolding Cons by auto
      also have "\<dots> \<subseteq> set cs" by (auto dest: set_dropWhileD)
      finally have "set rest \<subseteq> set cs" .
      with 2(2) [OF True Cons] show ?thesis
        unfolding True stripTags_tag [OF Cons] by auto
    qed
  qed
qed

lemma stripTags_no_tag: "\<not> hasTag (stripTags s)"
proof (induction s rule: stripTags.induct)
  case 1
  then show ?case by simp
next
  case (2 c cs)
  show ?case
  proof (cases "c = CHR ''<''")
    case False
    from 2(3) [OF False] False show ?thesis
      unfolding stripTags_other [OF False] by simp
  next
    case True
    show ?thesis
    proof (cases "dropWhile (\<lambda>x. x \<noteq> CHR ''>'') cs")
      case Nil
      then have "CHR ''>'' \<notin> set cs" by (auto simp: dropWhile_eq_Nil_conv)
      with set_stripTags [of cs] have "CHR ''>'' \<notin> set (stripTags cs)" by auto
      with 2(1) [OF True Nil] show ?thesis
        unfolding True stripTags_open [OF Nil] by simp
    next
      case (Cons x rest)
      from 2(2) [OF True Cons] show ?thesis
        unfolding True stripTags_tag [OF Cons] .
    qed
  qed
qed

lemma snippet_shape:
  "length (take 300 src @ ''...'') \<le> 303 \<and> suffix ''...'' (take 300 src @ ''...'')"
  by (simp add: suffix_def)

lemma searchWikipedia_Some:
  assumes "searchWikipedia fetch query = Some r"
  shows "\<exists>h hs. fetch (wikiUrl query) = WikiSearch (h # hs)
           \<and> snippet r = take 300 (stripTags (hitSnippet h)) @ ''...''
           \<and> url r = Some (''https://en.wikipedia.org/wiki/'' @ encodeURIComponent (hitTitle h))"
  using assms
  by (auto simp: searchWikipedia_def Let_def split: wikiResponse.splits list.splits)

lemma searchDuckDuckGo_Some:
  assumes "searchDuckDuckGo fetch query = Some r"
  shows "\<exists>data src. fetch (ddgUrl query) = DdgBody data \<and> src \<noteq> []
           \<and> snippet r = take 300 src @ ''...''
           \<and> (if truthy (AbstractText data)
               then AbstractText data = Some src \<and> url r = AbstractURL data
               else (\<exists>topic rest. RelatedTopics data = Some (topic # rest)
                      \<and> Text topic = Some src \<and> url r = FirstURL topic))"
  using assms
  by (auto simp: searchDuckDuckGo_def firstRelatedTopic_def truthy_def
      split: ddgResponse.splits option.splits list.splits if_splits)

text \<open>
  C7: a search function that returns a result returns as snippet the first 300
  characters (at most) of the source text followed by \<open>...\<close>: at most 303 characters
  that end with \<open>...\<close>. For Wikipedia the source text is the snippet of the first hit
  with its tags removed (no \<open><\<close> with a \<open>>\<close> after it is left), and the URL is the
  article address of the first hit's title. For DuckDuckGo the source text is the
  abstract, if there is one, and the text of the first related topic otherwise.
\<close>

theorem snippet_is_bounded_prefix:
  "(searchWikipedia fetch query = Some r \<longrightarrow>
      (\<exists>h hs. fetch (wikiUrl query) = WikiSearch (h # hs)
         \<and> snippet r = take 300 (stripTags (hitSnippet h)) @ ''...''
         \<and> \<not> hasTag (stripTags (hitSnippet h))
         \<and> url r = Some (''https://en.wikipedia.org/wiki/'' @ encodeURIComponent (hitTitle h)))
      \<and> length (snippet r) \<le> 303 \<and> suffix ''...'' (snippet r))
   \<and> (searchDuckDuckGo fetch' query = Some r' \<longrightarrow>
      (\<exists>data src. fetch' (ddgUrl query) = DdgBody data \<and> src \<noteq> []
         \<and> snippet r' = take 300 src @ ''...''
         \<and> (if truthy (AbstractText data)
             then AbstractText data = Some src \<and> url r' = AbstractURL data
             else (\<exists>topic rest. RelatedTopics data = Some (topic # rest)
                    \<and> Text topic = Some src \<and> url r' = FirstURL topic)))
      \<and> length (snippet r') \<le> 303 \<and> suffix ''...'' (snippet r'))"
proof (intro conjI impI)
  assume a: "searchWikipedia fetch query = Some r"
  from searchWikipedia_Some [OF a] stripTags_no_tag
  show "\<exists>h hs. fetch (wikiUrl query) = WikiSearch (h # hs)
         \<and> snippet r = take 300 (stripTags (hitSnippet h)) @ ''...''
         \<and> \<not> hasTag (stripTags (hitSnippet h))
         \<and> url r = Some (''https://en.wikipedia.org/wiki/'' @ encodeURIComponent (hitTitle h))"
    by blast
  from searchWikipedia_Some [OF a] obtain src where "snippet r = take 300 src @ ''...''"
    by blast
  with snippet_shape [of src]
  show "length (snippet r) \<le> 303" "suffix ''...'' (snippet r)" by simp_all
next
  assume a: "searchDuckDuckGo fetch' query = Some r'"
  from searchDuckDuckGo_Some [OF a]
  show "\<exists>data src. fetch' (ddgUrl query) = DdgBody data \<and> src \<noteq> []
         \<and> snippet r' = take 300 src @ ''...''
         \<and> (if truthy (AbstractText data)
             then AbstractText data = Some src \<and> url r' = AbstractURL data
             else (\<exists>topic rest. RelatedTopics data = Some (topic # rest)
                    \<and> Text topic = Some src \<and> url r' = FirstURL topic))" .
  from searchDuckDuckGo_Some [OF a] obtain src where "snippet r' = take 300 src @ ''...''"
    by blast
  with snippet_shape [of src]
  show "length (snippet r') \<le> 303" "suffix ''...'' (snippet r')" by simp_all
qed

lemma searchWikipedia_oneHit:
  "searchWikipedia oneHit ''bitcoin'' =
     Some \<lparr> snippet = ''Bitcoin is a cryptocurrency...'',
            url = Some ''https://en.wikipedia.org/wiki/Bitcoin'' \<rparr>"
  by code_simp

lemma searchDuckDuckGo_abstractOnly:
  "searchDuckDuckGo abstractOnly ''bitcoin'' =
     Some \<lparr> snippet = ''Bitcoin is a digital currency....'', url = None \<rparr>"
  by code_simp

theorem snippet_is_bounded_prefix_witness:
  "searchWikipedia oneHit ''bitcoin'' =
     Some \<lparr> snippet = ''Bitcoin is a cryptocurrency...'',
            url = Some ''https://en.wikipedia.org/wiki/Bitcoin'' \<rparr>
   \<and> length ''Bitcoin is a cryptocurrency...'' \<le> 303
   \<and> suffix ''...'' ''Bitcoin is a cryptocurrency...''
   \<and> searchDuckDuckGo abstractOnly ''bitcoin'' =
     Some \<lparr> snippet = ''Bitcoin is a digital currency....'', url = None \<rparr>
   \<and> length ''Bitcoin is a digital currency....'' \<le> 303
   \<and> suffix ''...'' ''Bitcoin is a digital currency....''"
  using snippet_is_bounded_prefix
    [of oneHit "''bitcoin''"
        "\<lparr> snippet = ''Bitcoin is a cryptocurrency...'',
           url = Some ''https://en.wikipedia.org/wiki/Bitcoin'' \<rparr>"
        abstractOnly
        "\<lparr> snippet = ''Bitcoin is a digital currency....'', url = None \<rparr>"]
    searchWikipedia_oneHit searchDuckDuckGo_abstractOnly
  by simp

section \<open>The aggregator\<close>

lemma aggregate_present:
  "aggregate wr dr =
     ((case present wr of
         None \<Rightarrow> []
       | Some w \<Rightarrow> ''\<newline>\<newline>**From Wikipedia:**\<newline>'' @ snippet w @ ''\<newline>'')
      @ (case present dr of
           None \<Rightarrow> []
         | Some d \<Rightarrow> ''\<newline>\<newline>**From DuckDuckGo:**\<newline>'' @ snippet d @ ''\<newline>''),
      (case present wr of
         None \<Rightarrow> []
       | Some w \<Rightarrow> [''[Wikipedia]('' @ shown (url w) @ '')''])
      @ (case present dr of
           None \<Rightarrow> []
         | Some d \<Rightarrow> if truthy (url d) then [''[Source]('' @ shown (url d) @ '')''] else []))"
  by (simp add: aggregate_def present_def split: settled.splits option.splits)

text \<open>
  C6, as the claim states it, fails: DuckDuckGo answers with an abstract and no link,
  its result is present and contributes its snippet block, and the list of citations
  stays empty.
\<close>

theorem present_result_without_citation_counterexample:
  "searchDuckDuckGo abstractOnly ''bitcoin''
     = Some \<lparr> snippet = ''Bitcoin is a digital currency....'', url = None \<rparr>
   \<and> aggregate (Fulfilled (searchWikipedia noWiki ''bitcoin''))
         (Fulfilled (searchDuckDuckGo abstractOnly ''bitcoin''))
     = (''\<newline>\<newline>**From DuckDuckGo:**\<newline>Bitcoin is a digital currency....\<newline>'', [])"
proof -
  have w: "searchWikipedia noWiki ''bitcoin'' = None"
    by (simp add: searchWikipedia_def noWiki_def)
  show ?thesis
    unfolding w searchDuckDuckGo_abstractOnly
    by (simp add: aggregate_def truthy_def)
qed

text \<open>
  C6, amended: the aggregator merges in fixed order, the Wikipedia result first and
  the DuckDuckGo result second. A present result contributes one labelled snippet
  block to the context; the Wikipedia result contributes one citation; the DuckDuckGo
  result contributes one citation when it has a link that is not empty, and none
  otherwise. An absent result contributes nothing.
\<close>

theorem aggregate_fixed_order:
  "aggregate wr dr =
     ((case present wr of
         None \<Rightarrow> []
       | Some w \<Rightarrow> ''\<newline>\<newline>**From Wikipedia:**\<newline>'' @ snippet w @ ''\<newline>'')
      @ (case present dr of
           None \<Rightarrow> []
         | Some d \<Rightarrow> ''\<newline>\<newline>**From DuckDuckGo:**\<newline>'' @ snippet d @ ''\<newline>''),
      (case present wr of
         None \<Rightarrow> []
       | Some w \<Rightarrow> [''[Wikipedia]('' @ shown (url w) @ '')''])
      @ (case present dr of
           None \<Rightarrow> []
         | Some d \<Rightarrow> if truthy (url d) then [''[Source]('' @ shown (url d) @ '')''] else []))"
  by (rule aggregate_present)

section \<open>What each step leaves unchanged\<close>

lemma chatPrompts_append: "chatPrompts (a @ b) = chatPrompts a @ chatPrompts b"
  by (induction a rule: chatPrompts.induct) simp_all

lemma saveCurrentChat_fields:
  "isGenerating (saveCurrentChat s) = isGenerating s"
  "conversationHistory (saveCurrentChat s) = conversationHistory s"
  "currentChatId (saveCurrentChat s) = currentChatId s"
  "chatbox (saveCurrentChat s) = chatbox s"
  "chatInput (saveCurrentChat s) = chatInput s"
  "typingHidden (saveCurrentChat s) = typingHidden s"
  "typingText (saveCurrentChat s) = typingText s"
  "sendDisabled (saveCurrentChat s) = sendDisabled s"
  by (simp_all add: saveCurrentChat_def saveAllChats_def split: option.splits)

lemma saveCurrentChat_events:
  "\<exists>w. events (saveCurrentChat s) = events s @ w \<and> (w = [] \<or> (\<exists>st. w = [StorageWrite st]))"
  by (simp add: saveCurrentChat_def saveAllChats_def split: option.splits)

lemma addToHistory_fields:
  "isGenerating (addToHistory r c s) = isGenerating s"
  "conversationHistory (addToHistory r c s) = conversationHistory s @ [\<lparr> role = r, content = c \<rparr>]"
  "currentChatId (addToHistory r c s) = currentChatId s"
  "chatbox (addToHistory r c s) = chatbox s"
  "chatInput (addToHistory r c s) = chatInput s"
  "typingHidden (addToHistory r c s) = typingHidden s"
  "typingText (addToHistory r c s) = typingText s"
  "sendDisabled (addToHistory r c s) = sendDisabled s"
  by (simp_all add: addToHistory_def saveCurrentChat_fields)

lemma addToHistory_events:
  "\<exists>w. events (addToHistory r c s) = events s @ w \<and> (w = [] \<or> (\<exists>st. w = [StorageWrite st]))"
  using saveCurrentChat_events [of "s\<lparr> conversationHistory := conversationHistory s @ [\<lparr> role = r, content = c \<rparr>] \<rparr>"]
  by (simp add: addToHistory_def)

lemma addToHistory_chatPrompts:
  "chatPrompts (events (addToHistory r c s)) = chatPrompts (events s)"
  using addToHistory_events [of r c s] by (auto simp: chatPrompts_append)

lemma callApi_eq:
  "callApi net p i s =
     (fetchApi net (length (filter isApiRequest (events s))),
      s\<lparr> events := events s @ [ApiRequest i (finalPrompt (conversationHistory s) p i)] \<rparr>)"
  by (simp add: callApi_def Let_def)

lemma handleResponse_chatPrompts:
  "chatPrompts (events (fst (handleResponse net data isImageGen s))) = chatPrompts (events s)"
  by (simp add: handleResponse_def callApi_eq addToHistory_chatPrompts displayImage_def
      displayMessage_def updateStatus_def chatPrompts_append
      split: apiJson.splits option.splits)

section \<open>A search that finds nothing\<close>

lemma aggregate_none: "aggregate (Fulfilled None) (Fulfilled None) = ([], [])"
  by (simp add: aggregate_def)

lemma enrichedPrompt_longer: "length query < length (enrichedPrompt query ctx)"
  by (simp add: enrichedPrompt_def)

lemma finalPrompt_enriched_differs:
  "finalPrompt h (enrichedPrompt query ctx) False \<noteq> finalPrompt h query False"
proof
  assume "finalPrompt h (enrichedPrompt query ctx) False = finalPrompt h query False"
  then have "enrichedPrompt query ctx = query"
    by (simp add: finalPrompt_def split: if_splits)
  with enrichedPrompt_longer [of query ctx] show False by simp
qed

lemma performWebSearch_nothing_found:
  assumes w: "searchWikipedia (fetchWiki net) query = None"
    and d: "searchDuckDuckGo (fetchDdg net) query = None"
  shows "chatPrompts (events (fst (snd (performWebSearch net query s)))) =
     chatPrompts (events s) @
     (case fetchApi net (length (filter isApiRequest (events s))) of
        Inr response \<Rightarrow> [finalPrompt (conversationHistory s) (enrichedPrompt query []) False]
      | Inl e \<Rightarrow> [finalPrompt (conversationHistory s) (enrichedPrompt query []) False,
                  finalPrompt (conversationHistory s) query False])"
proof (cases "fetchApi net (length (filter isApiRequest (events s)))")
  case (Inr response)
  then show ?thesis
    unfolding performWebSearch_def Let_def w d aggregate_none
    by (simp add: callApi_eq updateStatus_def isApiRequest_def Let_def
        handleResponse_chatPrompts chatPrompts_append split: prod.splits)
next
  case (Inl e)
  then show ?thesis
    unfolding performWebSearch_def Let_def w d aggregate_none
    by (simp add: callApi_eq updateStatus_def displayMessage_def isApiRequest_def Let_def
        handleResponse_chatPrompts chatPrompts_append split: prod.splits sum.splits)
qed

lemma searchDown_nothing:
  "searchWikipedia (fetchWiki searchDown) query = None"
  "searchDuckDuckGo (fetchDdg searchDown) query = None"
  by (simp_all add: searchDown_def searchWikipedia_def searchDuckDuckGo_def)

text \<open>
  C3, as the claim states it, fails in its second half: when both sources fail the
  context and the citations are empty, and the one chat request that
  \<open>performWebSearch\<close> sends is the enriched prompt built around the empty context,
  not the prompt of the query alone.
\<close>

theorem empty_context_still_enriched_counterexample:
  "aggregate (Fulfilled (searchWikipedia (fetchWiki searchDown) ''bitcoin price today''))
     (Fulfilled (searchDuckDuckGo (fetchDdg searchDown) ''bitcoin price today'')) = ([], [])
   \<and> chatPrompts (events (fst (snd (performWebSearch searchDown ''bitcoin price today'' blankPage))))
     = [finalPrompt [] (enrichedPrompt ''bitcoin price today'' []) False]
   \<and> finalPrompt [] (enrichedPrompt ''bitcoin price today'' []) False
     \<noteq> finalPrompt [] ''bitcoin price today'' False"
proof -
  have "fetchApi searchDown (length (filter isApiRequest (events blankPage)))
      = Inr (JObj (Some ''success'') (Some ''Bitcoin is a digital currency.'') None)"
    by (simp add: searchDown_def)
  with performWebSearch_nothing_found [OF searchDown_nothing, of "''bitcoin price today''" blankPage]
  have "chatPrompts (events (fst (snd (performWebSearch searchDown ''bitcoin price today'' blankPage))))
     = [finalPrompt [] (enrichedPrompt ''bitcoin price today'' []) False]"
    by (simp add: blankPage_def)
  then show ?thesis
    by (simp only: searchDown_nothing aggregate_none finalPrompt_enriched_differs
        not_False_eq_True simp_thms)
qed

text \<open>
  C3, amended: when both source lookups fail or yield no result, the context is the
  empty string and the list of citations is empty, and \<open>performWebSearch\<close> still
  sends the enriched prompt, built around the empty context. It sends the prompt of
  the original query only after that first request has thrown; the two prompts
  differ.
\<close>

theorem empty_context_prompts:
  assumes "searchWikipedia (fetchWiki net) query = None"
    and "searchDuckDuckGo (fetchDdg net) query = None"
  shows "aggregate (Fulfilled (searchWikipedia (fetchWiki net) query))
           (Fulfilled (searchDuckDuckGo (fetchDdg net) query)) = ([], [])
    \<and> chatPrompts (events (fst (snd (performWebSearch net query s)))) =
        chatPrompts (events s) @
        (case fetchApi net (length (filter isApiRequest (events s))) of
           Inr response \<Rightarrow> [finalPrompt (conversationHistory s) (enrichedPrompt query []) False]
         | Inl e \<Rightarrow> [finalPrompt (conversationHistory s) (enrichedPrompt query []) False,
                     finalPrompt (conversationHistory s) query False])
    \<and> finalPrompt (conversationHistory s) (enrichedPrompt query []) False
        \<noteq> finalPrompt (conversationHistory s) query False"
  using performWebSearch_nothing_found [OF assms] finalPrompt_enriched_differs
  by (simp add: assms aggregate_none)

theorem empty_context_prompts_witness:
  "searchWikipedia (fetchWiki searchDown) ''bitcoin price today'' = None
   \<and> searchDuckDuckGo (fetchDdg searchDown) ''bitcoin price today'' = None
   \<and> chatPrompts (events (fst (snd (performWebSearch searchDown ''bitcoin price today'' blankPage))))
     = [finalPrompt [] (enrichedPrompt ''bitcoin price today'' []) False]"
proof -
  have a: "fetchApi searchDown n
      = Inr (JObj (Some ''success'') (Some ''Bitcoin is a digital currency.'') None)" for n
    by (simp add: searchDown_def)
  have b: "events blankPage = []" "conversationHistory blankPage = []"
    by (simp_all add: blankPage_def)
  from empty_context_prompts [OF searchDown_nothing, of "''bitcoin price today''" blankPage]
  show ?thesis
    by (simp add: searchDown_nothing a b)
qed

section \<open>The in-flight guard\<close>

lemma resumeResponse_flags:
  "isGenerating (resumeResponse r s) = isGenerating s"
  "typingHidden (resumeResponse r s) = typingHidden s"
  "sendDisabled (resumeResponse r s) = sendDisabled s"
  by (simp_all add: resumeResponse_def addToHistory_fields displayImage_def displayMessage_def
      split: sum.splits apiJson.splits)

lemma handleChatSubmit_accepted:
  assumes "trim (chatInput s) \<noteq> []" "\<not> isGenerating s"
  shows "\<exists>s' p. handleChatSubmit net s =
           (updateStatus [] True (s'\<lparr> isGenerating := False \<rparr>), p)"
  using assms by (auto simp add: handleChatSubmit_def Let_def split: prod.splits)

lemma submitPrelude_sets_flag: "isGenerating (submitPrelude m s)"
  by (simp add: submitPrelude_def removeWelcomeScreen_def Let_def)

text \<open>
  C8: for a submission that the handler accepts, the in-flight guard is set while
  the pipeline runs, and when the handler finishes \<open>isGenerating\<close> is false, the
  status indicator is hidden and the send button is enabled, whatever the network
  answers (so also when a step threw); they stay so when an image that the model
  asked for arrives later.
\<close>

theorem generating_flag_cleared:
  assumes "trim (chatInput s) \<noteq> []" and "\<not> isGenerating s"
  shows "isGenerating (submitPrelude (trim (chatInput s)) s)
    \<and> \<not> isGenerating (fst (handleChatSubmit net s))
    \<and> typingHidden (fst (handleChatSubmit net s))
    \<and> \<not> sendDisabled (fst (handleChatSubmit net s))
    \<and> \<not> isGenerating (settle (handleChatSubmit net s))
    \<and> typingHidden (settle (handleChatSubmit net s))
    \<and> \<not> sendDisabled (settle (handleChatSubmit net s))"
proof -
  from handleChatSubmit_accepted [OF assms] obtain s' p where
    h: "handleChatSubmit net s = (updateStatus [] True (s'\<lparr> isGenerating := False \<rparr>), p)"
    by blast
  have a: "\<not> isGenerating (fst (handleChatSubmit net s))"
    "typingHidden (fst (handleChatSubmit net s))"
    "\<not> sendDisabled (fst (handleChatSubmit net s))"
    by (simp_all add: h updateStatus_def)
  then have "\<not> isGenerating (settle (handleChatSubmit net s))"
    "typingHidden (settle (handleChatSubmit net s))"
    "\<not> sendDisabled (settle (handleChatSubmit net s))"
    by (simp_all add: settle_def resumeResponse_flags split: option.splits)
  with a submitPrelude_sets_flag show ?thesis by simp
qed

lemma trim_hi: "trim ''hi'' = ''hi''"
  by code_simp

theorem generating_flag_cleared_witness:
  "trim (chatInput (typed ''hi'')) \<noteq> [] \<and> \<not> isGenerating (typed ''hi'')
   \<and> fst (submitBody allDown ''hi'' (submitPrelude ''hi'' (typed ''hi''))) = Inl FetchFailed
   \<and> \<not> isGenerating (fst (handleChatSubmit allDown (typed ''hi'')))
   \<and> typingHidden (fst (handleChatSubmit allDown (typed ''hi'')))
   \<and> \<not> isGenerating (settle (handleChatSubmit allDown (typed ''hi'')))"
proof -
  have t: "fst (submitBody allDown ''hi'' (submitPrelude ''hi'' (typed ''hi''))) = Inl FetchFailed"
    unfolding submitBody_def performWebSearch_def Let_def
    by (simp add: callApi_def allDown_def Let_def case_prod_beta)
  have a: "trim (chatInput (typed ''hi'')) \<noteq> []"
    by (simp add: typed_def trim_hi)
  have b: "\<not> isGenerating (typed ''hi'')"
    by (simp add: typed_def firstChat_def createNewChat_def restoreChat_def
        showWelcomeScreen_def saveAllChats_def blankPage_def Let_def)
  from generating_flag_cleared [OF a b, of allDown] a b t show ?thesis by simp
qed

section \<open>The history and the store\<close>

lemma persisted_same:
  assumes "currentChatId s' = currentChatId s" "allChats s' = allChats s"
    "localStorage s' = localStorage s" "conversationHistory s' = conversationHistory s"
  shows "persisted cid s' = persisted cid s"
  by (simp add: persisted_def currentChat_def storedMessages_def assms)

lemma saveCurrentChat_persisted:
  assumes "currentChat cid s"
  shows "persisted cid (saveCurrentChat s)"
proof -
  from assms obtain c where c: "currentChatId s = Some cid" "cid \<noteq> []"
    "map_of (allChats s) cid = Some c"
    by (auto simp: currentChat_def)
  then show ?thesis
    by (simp add: persisted_def currentChat_def storedMessages_def saveCurrentChat_def
        saveAllChats_def update_conv')
qed

lemma addToHistory_persisted:
  assumes "currentChat cid s"
  shows "persisted cid (addToHistory r c s)"
proof -
  have "currentChat cid (s\<lparr> conversationHistory := conversationHistory s @ [\<lparr> role = r, content = c \<rparr>] \<rparr>)"
    using assms by (simp add: currentChat_def)
  then show ?thesis
    unfolding addToHistory_def by (rule saveCurrentChat_persisted)
qed

lemma saveCurrentChat_event:
  assumes "currentChat cid s"
  shows "\<exists>st c. events (saveCurrentChat s) = events s @ [StorageWrite st]
           \<and> localStorage (saveCurrentChat s) = Some st
           \<and> map_of st cid = Some c \<and> messages c = conversationHistory s"
proof -
  from assms obtain c where c: "currentChatId s = Some cid" "cid \<noteq> []"
    "map_of (allChats s) cid = Some c"
    by (auto simp: currentChat_def)
  then show ?thesis
    by (simp add: saveCurrentChat_def saveAllChats_def update_conv')
qed

lemma submitPrelude_persisted:
  assumes "currentChat cid s"
  shows "persisted cid (submitPrelude m s)"
    and "conversationHistory (submitPrelude m s)
           = conversationHistory s @ [\<lparr> role = ''user'', content = m \<rparr>]"
    and "\<exists>st c. events (submitPrelude m s) = events s @ [StorageWrite st]
           \<and> map_of st cid = Some c
           \<and> messages c = conversationHistory s @ [\<lparr> role = ''user'', content = m \<rparr>]"
proof -
  let ?s1 = "displayMessage m True s"
  let ?s2 = "addToHistory ''user'' m ?s1"
  have cc: "currentChat cid ?s1"
    using assms by (simp add: currentChat_def displayMessage_def)
  have p: "persisted cid ?s2" using cc by (rule addToHistory_persisted)
  have e: "submitPrelude m s = removeWelcomeScreen (?s2\<lparr> chatInput := [], isGenerating := True \<rparr>)"
    by (simp add: submitPrelude_def Let_def)
  show "persisted cid (submitPrelude m s)"
    unfolding e using p
    by (subst persisted_same [where s = ?s2]) (simp_all add: removeWelcomeScreen_def)
  show "conversationHistory (submitPrelude m s)
           = conversationHistory s @ [\<lparr> role = ''user'', content = m \<rparr>]"
    unfolding e
    by (simp add: removeWelcomeScreen_def addToHistory_fields displayMessage_def)
  have cc': "currentChat cid (?s1\<lparr> conversationHistory := conversationHistory ?s1 @ [\<lparr> role = ''user'', content = m \<rparr>] \<rparr>)"
    using cc by (simp add: currentChat_def)
  from saveCurrentChat_event [OF cc']
  show "\<exists>st c. events (submitPrelude m s) = events s @ [StorageWrite st]
           \<and> map_of st cid = Some c
           \<and> messages c = conversationHistory s @ [\<lparr> role = ''user'', content = m \<rparr>]"
    unfolding e
    by (auto simp: removeWelcomeScreen_def addToHistory_def displayMessage_def)
qed

lemma callApi_persisted:
  "persisted cid (snd (callApi net p i s)) = persisted cid s"
  by (rule persisted_same) (simp_all add: callApi_eq)

lemma callApi_history:
  "conversationHistory (snd (callApi net p i s)) = conversationHistory s"
  by (simp add: callApi_eq)

lemma callApi_answer: "fst (callApi net p i s) = fetchApi net (apiCount s)"
  by (simp add: callApi_eq apiCount_def)

lemma persisted_currentChat: "persisted cid s \<Longrightarrow> currentChat cid s"
  by (simp add: persisted_def)

lemma displayMessage_persisted: "persisted cid (displayMessage t u s) = persisted cid s"
  by (rule persisted_same) (simp_all add: displayMessage_def)

lemma displayImage_persisted: "persisted cid (displayImage i s) = persisted cid s"
  by (rule persisted_same) (simp_all add: displayImage_def)

lemma updateStatus_persisted: "persisted cid (updateStatus t h s) = persisted cid s"
  by (rule persisted_same) (simp_all add: updateStatus_def)

lemma displaySearchResults_persisted:
  "persisted cid (displaySearchResults q c srcs s) = persisted cid s"
  by (rule persisted_same) (simp_all add: displaySearchResults_def)

lemma simple_history:
  "conversationHistory (displayMessage t u s) = conversationHistory s"
  "conversationHistory (displayImage i s) = conversationHistory s"
  "conversationHistory (updateStatus t h s) = conversationHistory s"
  "conversationHistory (displaySearchResults q c srcs s) = conversationHistory s"
  by (simp_all add: displayMessage_def displayImage_def updateStatus_def
      displaySearchResults_def)

lemma handleResponse_events:
  "prefix (events s) (events (fst (handleResponse net data i s)))"
proof -
  have a: "prefix (events t) (events (addToHistory r c t))" for r c t
    using addToHistory_events [of r c t] by (auto simp: prefix_def)
  show ?thesis
    by (auto simp add: handleResponse_def callApi_eq displayImage_def displayMessage_def
        updateStatus_def Let_def
        intro: prefix_order.trans [OF _ a]
        split: apiJson.splits option.splits)
qed

lemma callApi_events: "prefix (events s) (events (snd (callApi net p i s)))"
  by (simp add: callApi_eq)

lemma performWebSearch_events:
  "prefix (events s) (events (fst (snd (performWebSearch net q s))))"
proof -
  have step: "prefix (events s) (events t) \<Longrightarrow>
      prefix (events s) (events (fst (handleResponse net data False (snd (callApi net p False t)))))"
    for t data p
    using prefix_order.trans [OF callApi_events handleResponse_events]
      prefix_order.trans by blast
  have step2: "prefix (events s) (events t) \<Longrightarrow>
      prefix (events s) (events (snd (callApi net p False t)))" for t p
    using callApi_events prefix_order.trans by blast
  show ?thesis
    unfolding performWebSearch_def Let_def
    by (auto simp add: case_prod_beta updateStatus_def displaySearchResults_def
        displayMessage_def intro!: step step2 split: sum.splits)
qed

lemma submitBody_events:
  "prefix (events s) (events (fst (snd (submitBody net m s))))"
proof -
  have step: "prefix (events s) (events t) \<Longrightarrow>
      prefix (events s) (events (fst (handleResponse net data j (snd (callApi net p i t)))))"
    for t data p i j
    using prefix_order.trans [OF callApi_events handleResponse_events]
      prefix_order.trans by blast
  have step2: "prefix (events s) (events t) \<Longrightarrow>
      prefix (events s) (events (snd (callApi net p i t)))" for t p i
    using callApi_events prefix_order.trans by blast
  show ?thesis
    unfolding submitBody_def Let_def
    by (auto simp add: case_prod_beta updateStatus_def performWebSearch_events
        intro!: step step2 split: sum.splits)
qed

section \<open>The requests of a submission\<close>

lemma apiFlags_append: "apiFlags (a @ b) = apiFlags a @ apiFlags b"
  by (induction a rule: apiFlags.induct) simp_all

lemma length_apiFlags: "length (apiFlags es) = length (filter isApiRequest es)"
  by (induction es rule: apiFlags.induct) (simp_all add: isApiRequest_def)

lemma addToHistory_requests:
  "apiCount (addToHistory r c s) = apiCount s"
  "apiFlags (events (addToHistory r c s)) = apiFlags (events s)"
  using addToHistory_events [of r c s]
  by (auto simp: apiCount_def apiFlags_append isApiRequest_def)

lemma callApi_requests:
  "apiCount (snd (callApi net p i s)) = Suc (apiCount s)"
  "apiFlags (events (snd (callApi net p i s))) ! apiCount s = i"
  by (simp_all add: callApi_eq apiCount_def isApiRequest_def apiFlags_append
      length_apiFlags [symmetric])

lemma simple_events:
  "events (displayMessage t u s) = events s"
  "events (displayImage im s) = events s"
  "events (updateStatus t h s) = events s"
  "events (displaySearchResults q c srcs s) = events s"
  by (simp_all add: displayMessage_def displayImage_def updateStatus_def
      displaySearchResults_def)

lemma simple_requests:
  "apiCount (displayMessage t u s) = apiCount s"
  "apiCount (displayImage im s) = apiCount s"
  "apiCount (updateStatus t h s) = apiCount s"
  "apiCount (displaySearchResults q c srcs s) = apiCount s"
  by (simp_all add: apiCount_def simple_events)

lemma displayMessage_last: "last (chatbox (displayMessage t u s)) = Message t u"
  by (simp add: displayMessage_def)

lemma answered_same:
  assumes "events s' = events s" and "conversationHistory s' = conversationHistory s"
    and "chatbox s' = chatbox s"
  shows "answered net n0 h s' p = answered net n0 h s p"
  by (cases p) (simp_all add: answered_def apiCount_def assms)

section \<open>What an answer adds to the history\<close>

text \<open>\<open>handleResponse\<close> on the answer of the last POST.\<close>

lemma handleResponse_answered:
  assumes p: "persisted cid s"
    and f: "fetchApi net (apiCount s - 1) = Inr data"
    and lo: "n0 < apiCount s"
    and fl: "apiFlags (events s) ! (apiCount s - 1) = i"
  shows "persisted cid (fst (handleResponse net data i s))"
    and "answered net n0 (conversationHistory s) (fst (handleResponse net data i s))
           (snd (handleResponse net data i s))"
proof -
  have "persisted cid (fst (handleResponse net data i s))
      \<and> answered net n0 (conversationHistory s) (fst (handleResponse net data i s))
           (snd (handleResponse net data i s))"
  proof (cases "data")
    case JNull
    with p lo f show ?thesis by (simp add: handleResponse_def answered_def contribution_def)
  next
    case (JObj st tx img)
    show ?thesis
    proof (cases "st = Some ''success''")
      case False
      with JObj p lo f show ?thesis
        by (simp add: handleResponse_def displayMessage_persisted simple_history
            simple_requests simple_events answered_def displayMessage_last contribution_def)
    next
      case True
      note ok = this
      have nr: "\<not> refused (fetchApi net (apiCount s - 1))"
        using f JObj ok by simp
      show ?thesis
      proof (cases i)
        case True
        let ?s' = "addToHistory ''assistant'' ''[Generated Image]'' (displayImage img s)"
        have "currentChat cid (displayImage img s)"
          using p displayImage_persisted persisted_currentChat by blast
        then have p': "persisted cid ?s'" by (rule addToHistory_persisted)
        have c: "apiCount ?s' = apiCount s" "apiFlags (events ?s') = apiFlags (events s)"
          by (simp_all add: addToHistory_requests simple_requests simple_events)
        have h: "conversationHistory ?s'
            = conversationHistory s @ [\<lparr> role = ''assistant'', content = ''[Generated Image]'' \<rparr>]"
          by (simp add: addToHistory_fields simple_history)
        have "conversationHistory ?s' = conversationHistory s
            @ contribution (apiFlags (events ?s') ! (apiCount ?s' - 1))
                (fetchApi net (apiCount ?s' - 1))"
          unfolding c using f fl True JObj ok h by (simp add: contribution_def)
        with p' JObj ok True lo nr show ?thesis
          by (simp add: handleResponse_def answered_def c)
      next
        case False
        note chat = this
        show ?thesis
        proof (cases tx)
          case None
          with JObj ok chat p lo nr f fl show ?thesis
            by (simp add: handleResponse_def answered_def contribution_def)
        next
          case (Some t)
          show ?thesis
          proof (cases "startsWith (toLowerCase (trim t)) ''/image''")
            case True
            let ?s1 = "updateStatus ''Generating image...'' False s"
            let ?c = "callApi net (trim (drop 6 t)) True ?s1"
            have c1: "apiCount ?s1 = apiCount s"
              by (simp add: simple_requests)
            have e: "handleResponse net data i s = (snd ?c, Some (fst ?c))"
              using JObj ok chat Some True
              by (simp add: handleResponse_def Let_def case_prod_beta)
            have p': "persisted cid (snd ?c)"
              using p by (simp add: callApi_persisted updateStatus_persisted)
            have h: "conversationHistory (snd ?c) = conversationHistory s"
              by (simp add: callApi_history simple_history)
            have r: "fst ?c = fetchApi net (apiCount s)"
              by (simp add: callApi_answer c1)
            have k: "apiCount (snd ?c) = Suc (apiCount s)"
              "apiFlags (events (snd ?c)) ! apiCount s"
              using callApi_requests [of net "trim (drop 6 t)" True ?s1]
              by (simp_all add: c1)
            from p' h r k lo show ?thesis
              by (simp add: e answered_def)
          next
            case False
            let ?s' = "addToHistory ''assistant'' t (displayMessage t False s)"
            have "currentChat cid (displayMessage t False s)"
              using p displayMessage_persisted persisted_currentChat by blast
            then have p': "persisted cid ?s'" by (rule addToHistory_persisted)
            have c: "apiCount ?s' = apiCount s" "apiFlags (events ?s') = apiFlags (events s)"
              by (simp_all add: addToHistory_requests simple_requests simple_events)
            have h: "conversationHistory ?s'
                = conversationHistory s @ [\<lparr> role = ''assistant'', content = t \<rparr>]"
              by (simp add: addToHistory_fields simple_history)
            have "conversationHistory ?s' = conversationHistory s
                @ contribution (apiFlags (events ?s') ! (apiCount ?s' - 1))
                    (fetchApi net (apiCount ?s' - 1))"
              unfolding c using f fl chat JObj ok Some h by (simp add: contribution_def)
            with p' JObj ok chat Some False lo nr show ?thesis
              by (simp add: handleResponse_def answered_def c)
          qed
        qed
      qed
    qed
  qed
  then show "persisted cid (fst (handleResponse net data i s))"
    and "answered net n0 (conversationHistory s) (fst (handleResponse net data i s))
           (snd (handleResponse net data i s))"
    by simp_all
qed

text \<open>The rest of \<open>handleResponse\<close>, on the answer of the image request that was the
  last POST.\<close>

lemma resumeResponse_answered:
  assumes p: "persisted cid s"
    and r: "r = fetchApi net (apiCount s - 1)"
    and fl: "apiFlags (events s) ! (apiCount s - 1)"
  shows "persisted cid (resumeResponse r s)"
    and "apiCount (resumeResponse r s) = apiCount s"
    and "conversationHistory (resumeResponse r s) = conversationHistory s
           @ contribution (apiFlags (events (resumeResponse r s)) ! (apiCount (resumeResponse r s) - 1))
               (fetchApi net (apiCount (resumeResponse r s) - 1))"
    and "refused r \<Longrightarrow>
         last (chatbox (resumeResponse r s)) = Message ''Failed to generate image.'' False"
proof -
  have "persisted cid (resumeResponse r s)
      \<and> apiCount (resumeResponse r s) = apiCount s
      \<and> apiFlags (events (resumeResponse r s)) = apiFlags (events s)
      \<and> conversationHistory (resumeResponse r s) = conversationHistory s @ contribution True r
      \<and> (refused r \<longrightarrow>
         last (chatbox (resumeResponse r s)) = Message ''Failed to generate image.'' False)"
  proof (cases r)
    case (Inl e)
    with p show ?thesis by (simp add: resumeResponse_def contribution_def)
  next
    case (Inr data)
    show ?thesis
    proof (cases "data")
      case JNull
      with Inr p show ?thesis by (simp add: resumeResponse_def contribution_def)
    next
      case (JObj st tx img)
      show ?thesis
      proof (cases "st = Some ''success''")
        case True
        let ?s' = "addToHistory ''assistant'' ''[Generated Image]'' (displayImage img s)"
        have "currentChat cid (displayImage img s)"
          using p displayImage_persisted persisted_currentChat by blast
        then have p': "persisted cid ?s'" by (rule addToHistory_persisted)
        have c: "apiCount ?s' = apiCount s" "apiFlags (events ?s') = apiFlags (events s)"
          by (simp_all add: addToHistory_requests simple_requests simple_events)
        have h: "conversationHistory ?s'
            = conversationHistory s @ [\<lparr> role = ''assistant'', content = ''[Generated Image]'' \<rparr>]"
          by (simp add: addToHistory_fields simple_history)
        from p' Inr JObj True c h show ?thesis
          by (simp add: resumeResponse_def contribution_def)
      next
        case False
        with Inr JObj p show ?thesis
          by (simp add: resumeResponse_def displayMessage_persisted simple_history
              simple_requests simple_events displayMessage_last contribution_def)
      qed
    qed
  qed
  with r fl show "persisted cid (resumeResponse r s)"
    and "apiCount (resumeResponse r s) = apiCount s"
    and "conversationHistory (resumeResponse r s) = conversationHistory s
           @ contribution (apiFlags (events (resumeResponse r s)) ! (apiCount (resumeResponse r s) - 1))
               (fetchApi net (apiCount (resumeResponse r s) - 1))"
    and "refused r \<Longrightarrow>
         last (chatbox (resumeResponse r s)) = Message ''Failed to generate image.'' False"
    by simp_all
qed

text \<open>A request followed by \<open>handleResponse\<close>, as it occurs four times.\<close>

lemma ask_failed:
  assumes "persisted cid s" and "fst (callApi net prompt i s) = Inl e"
  shows "persisted cid (snd (callApi net prompt i s))"
    and "conversationHistory (snd (callApi net prompt i s)) = conversationHistory s"
    and "apiCount (snd (callApi net prompt i s)) = Suc (apiCount s)"
    and "fetchApi net (apiCount s) = Inl e"
  using assms
  by (simp_all add: callApi_persisted callApi_history callApi_requests callApi_answer)

lemma ask_then_handle:
  assumes p: "persisted cid s" and r: "fst (callApi net prompt i s) = Inr response"
    and lo: "n0 \<le> apiCount s"
  shows "persisted cid (fst (handleResponse net response i (snd (callApi net prompt i s))))"
    and "answered net n0 (conversationHistory s)
           (fst (handleResponse net response i (snd (callApi net prompt i s))))
           (snd (handleResponse net response i (snd (callApi net prompt i s))))"
proof -
  let ?s' = "snd (callApi net prompt i s)"
  have p': "persisted cid ?s'" using p by (simp add: callApi_persisted)
  have h': "conversationHistory ?s' = conversationHistory s" by (rule callApi_history)
  have k: "apiCount ?s' - 1 = apiCount s" by (simp add: callApi_requests)
  from r have f: "fetchApi net (apiCount ?s' - 1) = Inr response"
    by (simp add: callApi_answer callApi_requests)
  have hi: "n0 < apiCount ?s'" using lo by (simp add: callApi_requests)
  have fl: "apiFlags (events ?s') ! (apiCount ?s' - 1) = i"
    unfolding k by (rule callApi_requests)
  from handleResponse_answered [OF p' f hi fl]
  show "persisted cid (fst (handleResponse net response i ?s'))"
    and "answered net n0 (conversationHistory s) (fst (handleResponse net response i ?s'))
           (snd (handleResponse net response i ?s'))"
    by (simp_all add: h')
qed

lemma performWebSearch_answered:
  assumes p: "persisted cid s"
  shows "persisted cid (fst (snd (performWebSearch net q s)))
    \<and> answered net (apiCount s) (conversationHistory s) (fst (snd (performWebSearch net q s)))
         (snd (snd (performWebSearch net q s)))
    \<and> (\<forall>e. fst (performWebSearch net q s) = Inl e \<longrightarrow>
          conversationHistory (fst (snd (performWebSearch net q s))) = conversationHistory s
          \<and> snd (snd (performWebSearch net q s)) = None
          \<and> \<not> refused (fetchApi net (apiCount (fst (snd (performWebSearch net q s))) - 1)))"
proof -
  obtain ctx srcs where ag:
    "aggregate (Fulfilled (searchWikipedia (fetchWiki net) q))
       (Fulfilled (searchDuckDuckGo (fetchDdg net) q)) = (ctx, srcs)"
    by fastforce
  define s2 where "s2 = (updateStatus ''Searching the web...'' False s)
     \<lparr> events := events (updateStatus ''Searching the web...'' False s)
          @ [FetchWiki (wikiUrl q), FetchDdg (ddgUrl q)] \<rparr>"
  define s4 where "s4 = updateStatus ''Analyzing information...'' False
     (if ctx \<noteq> [] then displaySearchResults q ctx srcs s2 else s2)"
  have p2: "persisted cid s2"
    unfolding s2_def using p
    by (subst persisted_same [where s = s]) (simp_all add: updateStatus_def)
  have h2: "conversationHistory s2 = conversationHistory s"
    by (simp add: s2_def updateStatus_def)
  have n2: "apiCount s2 = apiCount s"
    by (simp add: s2_def updateStatus_def apiCount_def isApiRequest_def)
  have p4: "persisted cid s4"
    unfolding s4_def using p2
    by (simp add: updateStatus_persisted displaySearchResults_persisted)
  have h4: "conversationHistory s4 = conversationHistory s"
    by (simp add: s4_def simple_history h2)
  have n4: "apiCount s4 = apiCount s"
    by (simp add: s4_def simple_requests n2)
  define c1 where "c1 = callApi net (enrichedPrompt q ctx) False s4"
  define s6 where "s6 = displayMessage
      ''Web search encountered an error. Answering from knowledge base...'' False (snd c1)"
  define c2 where "c2 = callApi net q False s6"
  have pw: "performWebSearch net q s =
     (case fst c1 of
        Inr response \<Rightarrow>
          (Inr (), fst (handleResponse net response False (snd c1)),
           snd (handleResponse net response False (snd c1)))
      | Inl e \<Rightarrow>
          (case fst c2 of
             Inr response \<Rightarrow>
               (Inr (), fst (handleResponse net response False (snd c2)),
                snd (handleResponse net response False (snd c2)))
           | Inl e2 \<Rightarrow> (Inl e2, snd c2, None)))"
    unfolding performWebSearch_def Let_def ag
    by (simp add: c1_def c2_def s6_def s4_def s2_def case_prod_beta split: sum.splits)
  have lo4: "apiCount s \<le> apiCount s4" by (simp add: n4)
  show ?thesis
  proof (cases "fst c1")
    case (Inr response)
    from ask_then_handle [OF p4 Inr [unfolded c1_def] lo4]
    show ?thesis by (simp add: pw Inr c1_def [symmetric] h4)
  next
    case (Inl e)
    from ask_failed(1,2,3) [OF p4 Inl [unfolded c1_def]]
    have p5: "persisted cid (snd c1)"
      and h5: "conversationHistory (snd c1) = conversationHistory s"
      and n5: "apiCount (snd c1) = Suc (apiCount s)"
      by (simp_all add: c1_def h4 n4)
    have p6: "persisted cid s6" using p5 by (simp add: s6_def displayMessage_persisted)
    have h6: "conversationHistory s6 = conversationHistory s"
      by (simp add: s6_def simple_history h5)
    have n6: "apiCount s6 = Suc (apiCount s)"
      by (simp add: s6_def simple_requests n5)
    have lo6: "apiCount s \<le> apiCount s6"
      by (simp add: n6)
    show ?thesis
    proof (cases "fst c2")
      case (Inr response)
      from ask_then_handle [OF p6 Inr [unfolded c2_def] lo6]
      show ?thesis by (simp add: pw Inl Inr c2_def [symmetric] h6)
    next
      case (Inl e2)
      from ask_failed [OF p6 Inl [unfolded c2_def]]
      show ?thesis
        by (simp add: pw Inl \<open>fst c1 = Inl e\<close> c2_def [symmetric] h6 n6 answered_def
            contribution_def)
    qed
  qed
qed

lemma submitBody_answered:
  assumes p: "persisted cid s"
  shows "persisted cid (fst (snd (submitBody net m s)))
    \<and> answered net (apiCount s) (conversationHistory s) (fst (snd (submitBody net m s)))
         (snd (snd (submitBody net m s)))
    \<and> (\<forall>e. fst (submitBody net m s) = Inl e \<longrightarrow>
          conversationHistory (fst (snd (submitBody net m s))) = conversationHistory s
          \<and> snd (snd (submitBody net m s)) = None
          \<and> \<not> refused (fetchApi net (apiCount (fst (snd (submitBody net m s))) - 1)))"
proof (cases "\<not> startsWith (toLowerCase m) ''/image'' \<and> shouldPerformWebSearch m")
  case True
  then have "submitBody net m s = performWebSearch net m s"
    by (simp add: submitBody_def)
  with performWebSearch_answered [OF p, of net m] show ?thesis by simp
next
  case False
  note nosearch = this
  define i where "i = startsWith (toLowerCase m) ''/image''"
  define s1 where "s1 = updateStatus (if i then ''Generating image...'' else ''Thinking...'') False s"
  define c where "c = callApi net (if i then trim (drop 6 m) else m) i s1"
  have p1: "persisted cid s1" using p by (simp add: s1_def updateStatus_persisted)
  have h1: "conversationHistory s1 = conversationHistory s" by (simp add: s1_def simple_history)
  have n1: "apiCount s1 = apiCount s" by (simp add: s1_def simple_requests)
  have lo1: "apiCount s \<le> apiCount s1" by (simp add: n1)
  have sb: "submitBody net m s =
     (case fst c of
        Inr response \<Rightarrow>
          (Inr (), fst (handleResponse net response i (snd c)),
           snd (handleResponse net response i (snd c)))
      | Inl e \<Rightarrow> (Inl e, snd c, None))"
    using nosearch unfolding submitBody_def Let_def
    by (auto simp add: c_def s1_def i_def case_prod_beta split: sum.splits)
  show ?thesis
  proof (cases "fst c")
    case (Inr response)
    from ask_then_handle [OF p1 Inr [unfolded c_def] lo1]
    show ?thesis by (simp add: sb Inr c_def [symmetric] h1)
  next
    case (Inl e)
    from ask_failed [OF p1 Inl [unfolded c_def]]
    show ?thesis by (simp add: sb Inl c_def [symmetric] h1 n1 answered_def contribution_def)
  qed
qed

lemma performWebSearch_two_fail:
  assumes "fetchApi net (apiCount s) = Inl FetchFailed"
    and "fetchApi net (Suc (apiCount s)) = Inl FetchFailed"
  shows "fst (performWebSearch net q s) = Inl FetchFailed"
  using assms unfolding performWebSearch_def Let_def apiCount_def
  by (simp add: callApi_eq case_prod_beta updateStatus_def displaySearchResults_def
      displayMessage_def isApiRequest_def)

lemma submitBody_two_fail:
  assumes "fetchApi net (apiCount s) = Inl FetchFailed"
    and "fetchApi net (Suc (apiCount s)) = Inl FetchFailed"
  shows "fst (submitBody net m s) = Inl FetchFailed"
proof (cases "\<not> startsWith (toLowerCase m) ''/image'' \<and> shouldPerformWebSearch m")
  case True
  then have "submitBody net m s = performWebSearch net m s"
    by (simp add: submitBody_def)
  with performWebSearch_two_fail [OF assms] show ?thesis by simp
next
  case False
  with assms(1) show ?thesis
    unfolding submitBody_def Let_def apiCount_def
    by (auto simp add: callApi_eq case_prod_beta updateStatus_def)
qed

section \<open>A submission, from the user's turn to the answer\<close>

lemma handleChatSubmit_unfold:
  assumes "trim (chatInput s) = m" "m \<noteq> []" "\<not> isGenerating s"
  shows "handleChatSubmit net s =
     (updateStatus [] True
        ((case fst (submitBody net m (submitPrelude m s)) of
            Inr u \<Rightarrow> fst (snd (submitBody net m (submitPrelude m s)))
          | Inl e \<Rightarrow> displayMessage ''Sorry, something went wrong. Please try again.'' False
                      (fst (snd (submitBody net m (submitPrelude m s)))))
         \<lparr> isGenerating := False \<rparr>),
      snd (snd (submitBody net m (submitPrelude m s))))"
  using assms by (simp add: handleChatSubmit_def Let_def case_prod_beta)

lemma submitPrelude_requests: "apiCount (submitPrelude m s) = apiCount s"
proof -
  have "apiCount (addToHistory ''user'' m (displayMessage m True s)) = apiCount s"
    by (simp add: addToHistory_requests simple_requests)
  then show ?thesis
    by (simp add: submitPrelude_def Let_def removeWelcomeScreen_def apiCount_def)
qed

lemma submission_facts:
  fixes net :: env and s :: state and m :: string
  assumes m: "trim (chatInput s) = m" "m \<noteq> []" and g: "\<not> isGenerating s"
    and cc: "currentChat cid s"
  defines "u \<equiv> \<lparr> role = ''user'', content = m \<rparr>"
  defines "b \<equiv> fst (snd (submitBody net m (submitPrelude m s)))"
  defines "f \<equiv> fst (handleChatSubmit net s)"
  shows "persisted cid f"
    and "events f = events b"
    and "answered net (apiCount s) (conversationHistory s @ [u]) f (snd (handleChatSubmit net s))"
    and "fst (submitBody net m (submitPrelude m s)) = Inl e \<Longrightarrow>
           last (chatbox f) = Message ''Sorry, something went wrong. Please try again.'' False
           \<and> conversationHistory f = conversationHistory s @ [u]
           \<and> snd (handleChatSubmit net s) = None"
proof -
  note hu = handleChatSubmit_unfold [OF m g, of net]
  have pp: "persisted cid (submitPrelude m s)"
    and hp: "conversationHistory (submitPrelude m s) = conversationHistory s @ [u]"
    using submitPrelude_persisted [OF cc, of m] by (simp_all add: u_def)
  from submitBody_answered [OF pp, of net m]
  have pb: "persisted cid b"
    and ab: "answered net (apiCount s) (conversationHistory s @ [u]) b
               (snd (snd (submitBody net m (submitPrelude m s))))"
    and fb: "\<And>e. fst (submitBody net m (submitPrelude m s)) = Inl e \<Longrightarrow>
           conversationHistory b = conversationHistory s @ [u]
           \<and> snd (snd (submitBody net m (submitPrelude m s))) = None
           \<and> \<not> refused (fetchApi net (apiCount b - 1))"
    by (simp_all add: b_def hp submitPrelude_requests)
  have hf: "conversationHistory f = conversationHistory b"
    unfolding f_def hu b_def
    by (simp add: updateStatus_def displayMessage_def split: sum.splits)
  show ef: "events f = events b"
    unfolding f_def hu b_def
    by (simp add: updateStatus_def displayMessage_def split: sum.splits)
  have sp: "snd (handleChatSubmit net s) = snd (snd (submitBody net m (submitPrelude m s)))"
    by (simp add: hu)
  have "persisted cid f = persisted cid b"
    unfolding f_def hu b_def
    by (rule persisted_same) (simp_all add: updateStatus_def displayMessage_def split: sum.splits)
  with pb show "persisted cid f" by simp
  have thrown: "last (chatbox f) = Message ''Sorry, something went wrong. Please try again.'' False
           \<and> conversationHistory f = conversationHistory s @ [u]
           \<and> snd (handleChatSubmit net s) = None"
    if e: "fst (submitBody net m (submitPrelude m s)) = Inl e" for e
  proof -
    have "chatbox f = chatbox b @ [Message ''Sorry, something went wrong. Please try again.'' False]"
      unfolding f_def hu b_def
      by (simp add: e updateStatus_def displayMessage_def)
    with fb [OF e] hf sp show ?thesis by simp
  qed
  show "answered net (apiCount s) (conversationHistory s @ [u]) f (snd (handleChatSubmit net s))"
  proof (cases "fst (submitBody net m (submitPrelude m s))")
    case (Inr v)
    have cf: "chatbox f = chatbox b"
      unfolding f_def hu b_def
      by (simp add: Inr updateStatus_def)
    from ab show ?thesis
      by (simp add: answered_same [OF ef hf cf] sp)
  next
    case (Inl e)
    from ab have "apiCount s < apiCount f"
      by (simp add: answered_def apiCount_def ef)
    moreover have "\<not> refused (fetchApi net (apiCount f - 1))"
      using fb [OF Inl] by (simp add: apiCount_def ef)
    moreover have "contribution (apiFlags (events f) ! (apiCount f - 1))
        (fetchApi net (apiCount f - 1)) = []"
      using ab fb [OF Inl] by (simp add: answered_def apiCount_def ef)
    ultimately show ?thesis
      using thrown [OF Inl] by (simp add: answered_def)
  qed
  assume "fst (submitBody net m (submitPrelude m s)) = Inl e"
  then show "last (chatbox f) = Message ''Sorry, something went wrong. Please try again.'' False
           \<and> conversationHistory f = conversationHistory s @ [u]
           \<and> snd (handleChatSubmit net s) = None"
    by (rule thrown)
qed

lemma settle_facts:
  assumes p: "persisted cid (fst hs)"
    and a: "answered net n0 h (fst hs) (snd hs)"
  shows "persisted cid (settle hs)"
    and "n0 < apiCount (settle hs)"
    and "conversationHistory (settle hs)
           = h @ contribution (apiFlags (events (settle hs)) ! (apiCount (settle hs) - 1))
                   (fetchApi net (apiCount (settle hs) - 1))"
    and "refused (fetchApi net (apiCount (settle hs) - 1)) \<Longrightarrow>
         last (chatbox (settle hs))
           = Message (if snd hs = None then ''Error from API.''
                      else ''Failed to generate image.'') False"
proof -
  have "persisted cid (settle hs)
      \<and> n0 < apiCount (settle hs)
      \<and> conversationHistory (settle hs)
           = h @ contribution (apiFlags (events (settle hs)) ! (apiCount (settle hs) - 1))
                   (fetchApi net (apiCount (settle hs) - 1))
      \<and> (refused (fetchApi net (apiCount (settle hs) - 1)) \<longrightarrow>
         last (chatbox (settle hs))
           = Message (if snd hs = None then ''Error from API.''
                      else ''Failed to generate image.'') False)"
  proof (cases "snd hs")
    case None
    with a p show ?thesis by (simp add: settle_def answered_def)
  next
    case (Some r)
    with a have h: "conversationHistory (fst hs) = h"
      and n: "n0 < apiCount (fst hs)"
      and fl: "apiFlags (events (fst hs)) ! (apiCount (fst hs) - 1)"
      and r: "r = fetchApi net (apiCount (fst hs) - 1)"
      by (simp_all add: answered_def)
    from resumeResponse_answered [OF p r fl] h n r Some show ?thesis
      by (simp add: settle_def)
  qed
  then show "persisted cid (settle hs)"
    and "n0 < apiCount (settle hs)"
    and "conversationHistory (settle hs)
           = h @ contribution (apiFlags (events (settle hs)) ! (apiCount (settle hs) - 1))
                   (fetchApi net (apiCount (settle hs) - 1))"
    and "refused (fetchApi net (apiCount (settle hs) - 1)) \<Longrightarrow>
         last (chatbox (settle hs))
           = Message (if snd hs = None then ''Error from API.''
                      else ''Failed to generate image.'') False"
    by simp_all
qed

text \<open>
  C10: for an accepted submission in a chat that is one of \<open>allChats\<close>, the first
  thing that leaves the page is the write of the store, with the user's turn at the
  end of the chat's messages; every request comes after it. When the handler has
  finished, and also when a late image has arrived, the store holds the history. The
  submission sends at least one POST, and the history is then the old one, the
  user's turn, and what the answer to the last POST of the submission gives: one
  assistant turn if that answer has the status \<open>success\<close> (\<open>[Generated Image]\<close> for an
  image request, the text of the answer for a chat request), and nothing otherwise.
  An answer whose text is an image command is followed by an image request, which is
  then the last POST.
  So no message that the page shows for a failure is part of the history. If the last
  POST is not answered with \<open>success\<close>, the history ends with the user's turn. If it
  is answered with another status, the last message shown is \<open>Error from API.\<close>, or
  \<open>Failed to generate image.\<close> when it was the image request that an answer asked
  for. If the first POST, and the second one if there is one, are rejected, the last
  message shown is the error message of the handler, and the history and the store
  end with the user's turn.
\<close>

theorem user_turn_persisted_before_requests:
  assumes "trim (chatInput s) \<noteq> []" and "\<not> isGenerating s"
    and "currentChatId s = Some cid" and "cid \<noteq> []" and "map_of (allChats s) cid \<noteq> None"
  shows
    "(\<exists>st c rest.
        events (fst (handleChatSubmit net s)) = events s @ StorageWrite st # rest
        \<and> map_of st cid = Some c
        \<and> messages c = conversationHistory s @ [\<lparr> role = ''user'', content = trim (chatInput s) \<rparr>])
     \<and> storedMessages cid (fst (handleChatSubmit net s))
         = Some (conversationHistory (fst (handleChatSubmit net s)))
     \<and> prefix (conversationHistory s @ [\<lparr> role = ''user'', content = trim (chatInput s) \<rparr>])
         (conversationHistory (fst (handleChatSubmit net s)))
     \<and> storedMessages cid (settle (handleChatSubmit net s))
         = Some (conversationHistory (settle (handleChatSubmit net s)))
     \<and> apiCount s < apiCount (settle (handleChatSubmit net s))
     \<and> conversationHistory (settle (handleChatSubmit net s))
         = (conversationHistory s @ [\<lparr> role = ''user'', content = trim (chatInput s) \<rparr>])
           @ (case fetchApi net (apiCount (settle (handleChatSubmit net s)) - 1) of
                Inl e \<Rightarrow> []
              | Inr JNull \<Rightarrow> []
              | Inr (JObj st tx img) \<Rightarrow>
                  if st = Some ''success'' then
                    if apiFlags (events (settle (handleChatSubmit net s)))
                         ! (apiCount (settle (handleChatSubmit net s)) - 1)
                    then [\<lparr> role = ''assistant'', content = ''[Generated Image]'' \<rparr>]
                    else (case tx of
                            None \<Rightarrow> []
                          | Some t \<Rightarrow> [\<lparr> role = ''assistant'', content = t \<rparr>])
                  else [])
     \<and> ((\<forall>tx img. fetchApi net (apiCount (settle (handleChatSubmit net s)) - 1)
                     \<noteq> Inr (JObj (Some ''success'') tx img)) \<longrightarrow>
           conversationHistory (settle (handleChatSubmit net s))
             = conversationHistory s @ [\<lparr> role = ''user'', content = trim (chatInput s) \<rparr>])
     \<and> (\<forall>st tx img.
           fetchApi net (apiCount (settle (handleChatSubmit net s)) - 1) = Inr (JObj st tx img)
           \<and> st \<noteq> Some ''success'' \<longrightarrow>
           last (chatbox (settle (handleChatSubmit net s)))
             = Message (if snd (handleChatSubmit net s) = None then ''Error from API.''
                        else ''Failed to generate image.'') False)
     \<and> (fetchApi net (apiCount s) = Inl FetchFailed
          \<and> fetchApi net (Suc (apiCount s)) = Inl FetchFailed \<longrightarrow>
           conversationHistory (settle (handleChatSubmit net s))
             = conversationHistory s @ [\<lparr> role = ''user'', content = trim (chatInput s) \<rparr>]
           \<and> last (chatbox (settle (handleChatSubmit net s)))
             = Message ''Sorry, something went wrong. Please try again.'' False)"
proof -
  define m where "m = trim (chatInput s)"
  define u where "u = \<lparr> role = ''user'', content = m \<rparr>"
  define F where "F = settle (handleChatSubmit net s)"
  have tm: "trim (chatInput s) = m" and mn: "m \<noteq> []"
    using assms(1) by (simp_all add: m_def)
  have cc: "currentChat cid s"
    using assms(3,4,5) by (simp add: currentChat_def)
  note sf = submission_facts [OF tm mn assms(2) cc, of net, folded u_def]
  note st = settle_facts [OF sf(1) sf(3), folded F_def]
  from submitPrelude_persisted(3) [OF cc, of m] obtain w c where
    w: "events (submitPrelude m s) = events s @ [StorageWrite w]"
       "map_of w cid = Some c" "messages c = conversationHistory s @ [u]"
    by (auto simp: u_def)
  from submitBody_events [of "submitPrelude m s" net m] obtain rest where
    "events (fst (snd (submitBody net m (submitPrelude m s)))) = events (submitPrelude m s) @ rest"
    by (auto simp: prefix_def)
  with sf(2) w have 1: "\<exists>st c rest.
        events (fst (handleChatSubmit net s)) = events s @ StorageWrite st # rest
        \<and> map_of st cid = Some c \<and> messages c = conversationHistory s @ [u]"
    by auto
  have 2: "storedMessages cid (fst (handleChatSubmit net s))
         = Some (conversationHistory (fst (handleChatSubmit net s)))"
    using sf(1) by (simp add: persisted_def)
  have 3: "prefix (conversationHistory s @ [u]) (conversationHistory (fst (handleChatSubmit net s)))"
    using sf(3)
    by (cases "snd (handleChatSubmit net s)") (auto simp: answered_def)
  have 4: "storedMessages cid F = Some (conversationHistory F)"
    using st(1) by (simp add: persisted_def)
  have 5: "apiCount s < apiCount F"
    by (rule st(2))
  have 6: "conversationHistory F
      = (conversationHistory s @ [u])
        @ (case fetchApi net (apiCount F - 1) of
             Inl e \<Rightarrow> []
           | Inr JNull \<Rightarrow> []
           | Inr (JObj st tx img) \<Rightarrow>
               if st = Some ''success'' then
                 if apiFlags (events F) ! (apiCount F - 1)
                 then [\<lparr> role = ''assistant'', content = ''[Generated Image]'' \<rparr>]
                 else (case tx of
                         None \<Rightarrow> []
                       | Some t \<Rightarrow> [\<lparr> role = ''assistant'', content = t \<rparr>])
               else [])"
    using st(3) unfolding contribution_def .
  have 7: "(\<forall>tx img. fetchApi net (apiCount F - 1) \<noteq> Inr (JObj (Some ''success'') tx img)) \<longrightarrow>
      conversationHistory F = conversationHistory s @ [u]"
    using st(3) by (auto simp: contribution_def split: sum.splits apiJson.splits)
  have 8: "\<forall>st tx img.
      fetchApi net (apiCount F - 1) = Inr (JObj st tx img) \<and> st \<noteq> Some ''success'' \<longrightarrow>
      last (chatbox F)
        = Message (if snd (handleChatSubmit net s) = None then ''Error from API.''
                   else ''Failed to generate image.'') False"
  proof (intro allI impI)
    fix st tx img
    assume "fetchApi net (apiCount F - 1) = Inr (JObj st tx img) \<and> st \<noteq> Some ''success''"
    then have "refused (fetchApi net (apiCount F - 1))" by simp
    then show "last (chatbox F)
        = Message (if snd (handleChatSubmit net s) = None then ''Error from API.''
                   else ''Failed to generate image.'') False"
      by (rule st(4))
  qed
  have 9: "fetchApi net (apiCount s) = Inl FetchFailed
          \<and> fetchApi net (Suc (apiCount s)) = Inl FetchFailed \<longrightarrow>
      conversationHistory F = conversationHistory s @ [u]
      \<and> last (chatbox F) = Message ''Sorry, something went wrong. Please try again.'' False"
  proof
    assume down: "fetchApi net (apiCount s) = Inl FetchFailed
          \<and> fetchApi net (Suc (apiCount s)) = Inl FetchFailed"
    then have "fst (submitBody net m (submitPrelude m s)) = Inl FetchFailed"
      by (intro submitBody_two_fail) (simp_all add: submitPrelude_requests)
    from sf(4) [OF this] show "conversationHistory F = conversationHistory s @ [u]
      \<and> last (chatbox F) = Message ''Sorry, something went wrong. Please try again.'' False"
      by (simp add: F_def settle_def)
  qed
  from 1 2 3 4 5 6 7 8 9 show ?thesis
    unfolding u_def m_def F_def by (intro conjI)
qed

lemma typed_facts:
  "chatInput (typed m) = m"
  "\<not> isGenerating (typed m)"
  "currentChatId (typed m) = Some ''chat_1''"
  "map_of (allChats (typed m)) ''chat_1'' \<noteq> None"
  "conversationHistory (typed m) = []"
  by (simp_all add: typed_def firstChat_def createNewChat_def restoreChat_def
      showWelcomeScreen_def saveAllChats_def blankPage_def Let_def)

text \<open>The submission of \<open>hi\<close> on a network whose API answers with a text.\<close>

lemma hi_not_searched: "\<not> shouldPerformWebSearch ''hi''"
  by code_simp

lemma hi_not_image: "\<not> startsWith (toLowerCase ''hi'') ''/image''"
  by code_simp

lemma answer_not_image:
  "\<not> startsWith (toLowerCase (trim ''Bitcoin is a digital currency.'')) ''/image''"
  by code_simp

lemma hi_answered:
  "handleChatSubmit searchDown (typed ''hi'') =
   (let s1 = submitPrelude ''hi'' (typed ''hi'');
        s2 = updateStatus ''Thinking...'' False s1;
        c = callApi searchDown ''hi'' False s2;
        s3 = addToHistory ''assistant'' ''Bitcoin is a digital currency.''
               (displayMessage ''Bitcoin is a digital currency.'' False (snd c))
    in (updateStatus [] True (s3\<lparr> isGenerating := False \<rparr>), None))"
proof -
  have t: "trim (chatInput (typed ''hi'')) = ''hi''"
    by (simp add: typed_facts trim_hi)
  have e: "''hi'' \<noteq> []" by simp
  have r: "fetchApi searchDown n
      = Inr (JObj (Some ''success'') (Some ''Bitcoin is a digital currency.'') None)" for n
    by (simp add: searchDown_def)
  show ?thesis
    unfolding handleChatSubmit_unfold [OF t e typed_facts(2)] submitBody_def Let_def
    by (simp add: hi_not_searched hi_not_image answer_not_image callApi_eq r
        handleResponse_def case_prod_beta)
qed

lemma hi_answer_flag:
  "\<not> apiFlags (events (settle (handleChatSubmit searchDown (typed ''hi''))))
      ! (apiCount (settle (handleChatSubmit searchDown (typed ''hi''))) - 1)"
proof -
  define s2 where "s2 = updateStatus ''Thinking...'' False (submitPrelude ''hi'' (typed ''hi''))"
  define c where "c = snd (callApi searchDown ''hi'' False s2)"
  define F where "F = settle (handleChatSubmit searchDown (typed ''hi''))"
  have e: "events F = events (addToHistory ''assistant'' ''Bitcoin is a digital currency.''
               (displayMessage ''Bitcoin is a digital currency.'' False c))"
    unfolding F_def hi_answered Let_def settle_def c_def s2_def
    by (simp add: updateStatus_def)
  have "apiFlags (events F) = apiFlags (events c)" "apiCount F = apiCount c"
    by (simp_all add: e apiCount_def [of F] addToHistory_requests [unfolded apiCount_def]
        simple_events apiCount_def [of c])
  moreover have "apiCount c = Suc (apiCount s2)" "\<not> apiFlags (events c) ! apiCount s2"
    unfolding c_def by (simp_all add: callApi_requests)
  ultimately show ?thesis
    unfolding F_def by simp
qed


theorem user_turn_persisted_before_requests_witness:
  "trim (chatInput (typed ''hi'')) \<noteq> [] \<and> \<not> isGenerating (typed ''hi'')
   \<and> currentChatId (typed ''hi'') = Some ''chat_1''
   \<and> map_of (allChats (typed ''hi'')) ''chat_1'' \<noteq> None
   \<and> fetchApi allDown (apiCount (typed ''hi'')) = Inl FetchFailed
   \<and> fetchApi allDown (Suc (apiCount (typed ''hi''))) = Inl FetchFailed
   \<and> conversationHistory (settle (handleChatSubmit allDown (typed ''hi'')))
       = [\<lparr> role = ''user'', content = ''hi'' \<rparr>]
   \<and> storedMessages ''chat_1'' (settle (handleChatSubmit allDown (typed ''hi'')))
       = Some [\<lparr> role = ''user'', content = ''hi'' \<rparr>]
   \<and> last (chatbox (settle (handleChatSubmit allDown (typed ''hi''))))
       = Message ''Sorry, something went wrong. Please try again.'' False
   \<and> fetchApi refusing (apiCount (settle (handleChatSubmit refusing (typed ''hi''))) - 1)
       = Inr (JObj (Some ''error'') None None)
   \<and> conversationHistory (settle (handleChatSubmit refusing (typed ''hi'')))
       = [\<lparr> role = ''user'', content = ''hi'' \<rparr>]
   \<and> storedMessages ''chat_1'' (settle (handleChatSubmit refusing (typed ''hi'')))
       = Some [\<lparr> role = ''user'', content = ''hi'' \<rparr>]
   \<and> last (chatbox (settle (handleChatSubmit refusing (typed ''hi''))))
       = Message ''Error from API.'' False
   \<and> fetchApi searchDown (apiCount (settle (handleChatSubmit searchDown (typed ''hi''))) - 1)
       = Inr (JObj (Some ''success'') (Some ''Bitcoin is a digital currency.'') None)
   \<and> conversationHistory (settle (handleChatSubmit searchDown (typed ''hi'')))
       = [\<lparr> role = ''user'', content = ''hi'' \<rparr>,
          \<lparr> role = ''assistant'', content = ''Bitcoin is a digital currency.'' \<rparr>]
   \<and> storedMessages ''chat_1'' (settle (handleChatSubmit searchDown (typed ''hi'')))
       = Some [\<lparr> role = ''user'', content = ''hi'' \<rparr>,
               \<lparr> role = ''assistant'', content = ''Bitcoin is a digital currency.'' \<rparr>]"
proof -
  have a: "trim (chatInput (typed ''hi'')) \<noteq> []"
    by (simp add: typed_facts trim_hi)
  have t: "trim (chatInput (typed ''hi'')) = ''hi''"
    by (simp add: typed_facts trim_hi)
  have e: "''hi'' \<noteq> []" by simp
  have n: "''chat_1'' \<noteq> []" by simp
  have d: "fetchApi allDown n = Inl FetchFailed" for n
    by (simp add: allDown_def)
  have r: "fetchApi refusing n = Inr (JObj (Some ''error'') None None)" for n
    by (simp add: refusing_def)
  have k: "fetchApi searchDown n
      = Inr (JObj (Some ''success'') (Some ''Bitcoin is a digital currency.'') None)" for n
    by (simp add: searchDown_def)
  have p: "snd (handleChatSubmit refusing (typed ''hi'')) = None"
    unfolding handleChatSubmit_unfold [OF t e typed_facts(2)]
      submitBody_def performWebSearch_def Let_def
    by (simp add: callApi_eq handleResponse_def r case_prod_beta)
  from user_turn_persisted_before_requests
    [OF a typed_facts(2) typed_facts(3) n typed_facts(4), of allDown]
    user_turn_persisted_before_requests
    [OF a typed_facts(2) typed_facts(3) n typed_facts(4), of refusing]
    user_turn_persisted_before_requests
    [OF a typed_facts(2) typed_facts(3) n typed_facts(4), of searchDown] d r k p hi_answer_flag
  show ?thesis
    by (simp add: typed_facts trim_hi)
qed

section \<open>Saving and loading a session\<close>

lemma addToHistory_currentChat:
  "currentChat cid s \<Longrightarrow> currentChat cid (addToHistory r c s)"
  using addToHistory_persisted persisted_currentChat by blast

lemma appendTurns_history:
  "conversationHistory (appendTurns ts s) = conversationHistory s @ ts"
  unfolding appendTurns_def
  by (induction ts arbitrary: s) (simp_all add: addToHistory_fields)

lemma appendTurns_currentChat:
  "currentChat cid s \<Longrightarrow> currentChat cid (appendTurns ts s)"
  unfolding appendTurns_def
  by (induction ts arbitrary: s) (simp_all add: addToHistory_currentChat)

lemma restoreChat_fields:
  "conversationHistory (restoreChat c s) = messages c"
  "allChats (restoreChat c s) = allChats s"
  "localStorage (restoreChat c s) = localStorage s"
  "currentChatId (restoreChat c s) = currentChatId s"
proof -
  have f: "conversationHistory (fold (\<lambda>msg. displayMessage (content msg) (role msg = ''user'')) ms t)
             = conversationHistory t
         \<and> allChats (fold (\<lambda>msg. displayMessage (content msg) (role msg = ''user'')) ms t)
             = allChats t
         \<and> localStorage (fold (\<lambda>msg. displayMessage (content msg) (role msg = ''user'')) ms t)
             = localStorage t
         \<and> currentChatId (fold (\<lambda>msg. displayMessage (content msg) (role msg = ''user'')) ms t)
             = currentChatId t" for ms t
    by (induction ms arbitrary: t) (simp_all add: displayMessage_def)
  show "conversationHistory (restoreChat c s) = messages c"
    "allChats (restoreChat c s) = allChats s"
    "localStorage (restoreChat c s) = localStorage s"
    "currentChatId (restoreChat c s) = currentChatId s"
    by (simp_all add: restoreChat_def Let_def showWelcomeScreen_def f)
qed

lemma loadChat_found:
  assumes "map_of (allChats s) cid = Some c"
  shows "conversationHistory (loadChat fresh cid s) = messages c"
    and "allChats (loadChat fresh cid s) = allChats s"
    and "currentChatId (loadChat fresh cid s) = Some cid"
  using assms by (simp_all add: loadChat_def Let_def restoreChat_fields)

lemma loadAllChats_stored:
  assumes st: "localStorage s = Some saved" and k: "map_of saved cid = Some c"
  shows "allChats (loadAllChats fresh s) = saved"
proof -
  from k have ne: "saved \<noteq> []" by auto
  then have "sort_key (\<lambda>kc. - date (snd kc)) saved \<noteq> []"
    by (metis length_0_conv length_sort)
  then obtain mr rest where mr: "sort_key (\<lambda>kc. - date (snd kc)) saved = mr # rest"
    by (cases "sort_key (\<lambda>kc. - date (snd kc)) saved") auto
  then have "mr \<in> set saved"
    by (metis list.set_intros(1) set_sort)
  then have "map_of saved (fst mr) \<noteq> None"
    by (metis map_of_eq_None_iff image_eqI)
  then obtain c' where "map_of saved (fst mr) = Some c'" by auto
  then have "allChats (loadChat fresh (fst mr) (s\<lparr> allChats := saved \<rparr>)) = saved"
    by (simp add: loadChat_found)
  then show ?thesis
    by (simp add: loadAllChats_def st Let_def mr)
qed

lemma reload_session:
  assumes "persisted cid s"
  shows "conversationHistory (loadChat f2 cid (loadAllChats f1 (reloadPage s)))
           = conversationHistory s"
proof -
  from assms obtain saved c where
    st: "localStorage s = Some saved" and k: "map_of saved cid = Some c"
    and ms: "messages c = conversationHistory s"
    by (auto simp: persisted_def storedMessages_def split: option.splits)
  have "localStorage (reloadPage s) = Some saved"
    by (simp add: reloadPage_def st)
  from loadAllChats_stored [OF this k]
  have "allChats (loadAllChats f1 (reloadPage s)) = saved" .
  with k have "map_of (allChats (loadAllChats f1 (reloadPage s))) cid = Some c" by simp
  from loadChat_found(1) [OF this] ms show ?thesis by simp
qed

lemma createNewChat_currentChat:
  "fst fresh \<noteq> [] \<Longrightarrow> currentChat (fst fresh) (createNewChat fresh s)"
  by (simp add: currentChat_def createNewChat_def Let_def restoreChat_fields
      saveAllChats_def update_conv')

lemma createNewChat_history: "conversationHistory (createNewChat fresh s) = []"
  by (simp add: createNewChat_def Let_def restoreChat_fields)

text \<open>
  C9: take a session that is the current chat and one of \<open>allChats\<close>, append turns
  to it, save it, load the page again and load the session from the store: the
  conversation history is the one before, followed by the appended turns, in their
  order and with each role and content as it was. For a session that
  \<open>createNewChat\<close> has just made it is the list of the appended turns.
\<close>

theorem session_round_trip:
  "(currentChatId s = Some cid \<and> cid \<noteq> [] \<and> map_of (allChats s) cid \<noteq> None \<longrightarrow>
      conversationHistory
        (loadChat f2 cid (loadAllChats f1 (reloadPage (saveCurrentChat (appendTurns ts s)))))
      = conversationHistory s @ ts)
   \<and> (fst fresh \<noteq> [] \<longrightarrow>
      conversationHistory
        (loadChat f2 (fst fresh) (loadAllChats f1 (reloadPage (appendTurns ts (createNewChat fresh s)))))
      = ts)"
proof (intro conjI impI)
  assume "currentChatId s = Some cid \<and> cid \<noteq> [] \<and> map_of (allChats s) cid \<noteq> None"
  then have "currentChat cid s" by (simp add: currentChat_def)
  then have "currentChat cid (appendTurns ts s)" by (rule appendTurns_currentChat)
  then have "persisted cid (saveCurrentChat (appendTurns ts s))"
    by (rule saveCurrentChat_persisted)
  from reload_session [OF this]
  show "conversationHistory
        (loadChat f2 cid (loadAllChats f1 (reloadPage (saveCurrentChat (appendTurns ts s)))))
      = conversationHistory s @ ts"
    by (simp add: saveCurrentChat_fields appendTurns_history)
next
  assume f: "fst fresh \<noteq> []"
  have p: "persisted (fst fresh) (appendTurns ts (createNewChat fresh s))"
  proof (cases ts rule: rev_cases)
    case Nil
    have "persisted (fst fresh) (createNewChat fresh s)"
      using f
      by (simp add: persisted_def currentChat_def storedMessages_def createNewChat_def Let_def
          restoreChat_fields saveAllChats_def update_conv')
    with Nil show ?thesis by (simp add: appendTurns_def)
  next
    case (snoc ts' t)
    have "currentChat (fst fresh) (appendTurns ts' (createNewChat fresh s))"
      using createNewChat_currentChat [OF f] by (rule appendTurns_currentChat)
    then have "persisted (fst fresh)
        (addToHistory (role t) (content t) (appendTurns ts' (createNewChat fresh s)))"
      by (rule addToHistory_persisted)
    with snoc show ?thesis by (simp add: appendTurns_def)
  qed
  from reload_session [OF p]
  show "conversationHistory
        (loadChat f2 (fst fresh) (loadAllChats f1 (reloadPage (appendTurns ts (createNewChat fresh s)))))
      = ts"
    by (simp add: appendTurns_history createNewChat_history)
qed

theorem session_round_trip_witness:
  "currentChatId firstChat = Some ''chat_1'' \<and> ''chat_1'' \<noteq> []
   \<and> map_of (allChats firstChat) ''chat_1'' \<noteq> None
   \<and> conversationHistory
        (loadChat (''chat_4'', 3) ''chat_1''
          (loadAllChats (''chat_3'', 2)
            (reloadPage (saveCurrentChat
              (appendTurns [\<lparr> role = ''user'', content = ''hi'' \<rparr>,
                            \<lparr> role = ''assistant'', content = ''Hello!'' \<rparr>] firstChat)))))
      = [\<lparr> role = ''user'', content = ''hi'' \<rparr>, \<lparr> role = ''assistant'', content = ''Hello!'' \<rparr>]
   \<and> fst (''chat_2'', 1::int) \<noteq> []
   \<and> conversationHistory
        (loadChat (''chat_4'', 3) ''chat_2''
          (loadAllChats (''chat_3'', 2)
            (reloadPage
              (appendTurns [\<lparr> role = ''user'', content = ''hi'' \<rparr>,
                            \<lparr> role = ''assistant'', content = ''Hello!'' \<rparr>]
                 (createNewChat (''chat_2'', 1) firstChat)))))
      = [\<lparr> role = ''user'', content = ''hi'' \<rparr>, \<lparr> role = ''assistant'', content = ''Hello!'' \<rparr>]"
proof -
  have a: "currentChatId firstChat = Some ''chat_1''"
    "map_of (allChats firstChat) ''chat_1'' \<noteq> None"
    "conversationHistory firstChat = []"
    using typed_facts [of "[]"] by (simp_all add: typed_def)
  from session_round_trip
    [where s = firstChat and cid = "''chat_1''" and ?f2.0 = "(''chat_4'', 3)"
       and ?f1.0 = "(''chat_3'', 2)" and fresh = "(''chat_2'', 1)"
       and ts = "[\<lparr> role = ''user'', content = ''hi'' \<rparr>, \<lparr> role = ''assistant'', content = ''Hello!'' \<rparr>]"]
    a
  show ?thesis by simp
qed

end
